theory Spec2Isabelle
  imports Complex_Main
begin

section \<open>Tables\<close>

text \<open>
  A pandas DataFrame is an ordered collection of named columns over a common index.
  A cell is the missing marker (NaN, None, NaT), a number, a string, a boolean or a
  timestamp (nanoseconds since the epoch). Numbers are modelled as exact reals in place
  of IEEE doubles and 64-bit integers: rounding and overflow are outside the model.
\<close>

datatype cell = NaN | Number real | Str string | Flag bool | Stamp int

datatype dtype = Int64 | Float64 | BoolT | Object | Datetime64

record series =
  dtype :: dtype
  vals :: "cell list"

record frame =
  nrows :: nat
  columns :: "(string \<times> series) list"

text \<open>The invariant of a DataFrame: distinct column labels, every column as long as the index.\<close>

definition wf_frame :: "frame \<Rightarrow> bool" where
  "wf_frame df \<longleftrightarrow>
     distinct (map fst (columns df)) \<and>
     list_all (\<lambda>c. length (vals (snd c)) = nrows df) (columns df)"

text \<open>Python floats that may be nan: \<open>None\<close> is nan.\<close>

type_synonym pyfloat = "real option"

definition fl_bin :: "(real \<Rightarrow> real \<Rightarrow> real) \<Rightarrow> pyfloat \<Rightarrow> pyfloat \<Rightarrow> pyfloat" where
  "fl_bin f a b = (case a of None \<Rightarrow> None | Some x \<Rightarrow> (case b of None \<Rightarrow> None | Some y \<Rightarrow> Some (f x y)))"

text \<open>
  Division of a numpy integer count by a count: a zero denominator gives nan (with a
  warning that the module silences), not an exception. The counts divided in this module
  are never larger than their denominator, so \<open>0 / 0\<close> is the only zero division met.
\<close>

definition np_div :: "nat \<Rightarrow> nat \<Rightarrow> pyfloat" where
  "np_div a b = (if b = 0 then None else Some (real a / real b))"

text \<open>Python's \<open>max(0, x)\<close>: the first argument stays unless \<open>x > 0\<close>, so nan gives 0.\<close>

definition py_max0 :: "pyfloat \<Rightarrow> pyfloat" where
  "py_max0 x = (case x of None \<Rightarrow> Some 0 | Some v \<Rightarrow> if v > 0 then Some v else Some 0)"

section \<open>DataProfiler\<close>

datatype py_error = ZeroDivisionError | ValueError | TypeError | KeyError | OSError

text \<open>\<open>series.isnull().sum()\<close> and \<open>data.isnull().sum().sum()\<close>.\<close>

definition isnull_sum :: "series \<Rightarrow> nat" where
  "isnull_sum s = length (filter (\<lambda>c. c = NaN) (vals s))"

definition missing_cells :: "frame \<Rightarrow> nat" where
  "missing_cells df = sum_list (map (\<lambda>c. isnull_sum (snd c)) (columns df))"

text \<open>
  \<open>data.duplicated()\<close>: row \<open>i\<close> is marked when an earlier row holds the same values
  in every column (missing markers compare equal). A frame with no row or no column is
  empty and gives an empty mask.
\<close>

definition row_at :: "frame \<Rightarrow> nat \<Rightarrow> cell list" where
  "row_at df i = map (\<lambda>c. vals (snd c) ! i) (columns df)"

definition duplicated :: "frame \<Rightarrow> bool list" where
  "duplicated df =
     (if columns df = [] \<or> nrows df = 0 then []
      else map (\<lambda>i. list_ex (\<lambda>j. row_at df j = row_at df i) [0..<i]) [0..<nrows df])"

definition duplicated_sum :: "frame \<Rightarrow> nat" where
  "duplicated_sum df = length (filter (\<lambda>b. b) (duplicated df))"

text \<open>\<open>series.nunique()\<close>: the number of distinct non-missing values.\<close>

definition nunique :: "series \<Rightarrow> nat" where
  "nunique s = length (remdups (filter (\<lambda>c. c \<noteq> NaN) (vals s)))"

record overview =
  num_rows :: nat
  num_columns :: nat
  duplicate_rows :: nat

definition get_overview :: "frame \<Rightarrow> overview" where
  "get_overview data =
     \<lparr>num_rows = nrows data, num_columns = length (columns data),
      duplicate_rows = duplicated_sum data\<rparr>"

subsection \<open>Type inference\<close>

text \<open>
  \<open>pd.to_datetime(series)\<close> (errors are raised, the default) is a library call; \<open>None\<close>
  is a raised exception. For a column of object dtype the outcome depends on the library's
  string parser, which stays a parameter \<open>parse\<close>. For a numeric column the library
  reads each number as nanoseconds since the epoch and a missing value as NaT: the call
  returns whenever the numbers fit a 64-bit nanosecond timestamp. A boolean column is
  refused (TypeError), a datetime column is returned as it is.
\<close>

definition ns_bound :: real where
  "ns_bound = 9223372036854775807"

definition fits_timestamp :: "cell \<Rightarrow> bool" where
  "fits_timestamp c =
     (case c of NaN \<Rightarrow> True | Number x \<Rightarrow> \<bar>x\<bar> \<le> ns_bound | Stamp t \<Rightarrow> True
      | Str s \<Rightarrow> False | Flag b \<Rightarrow> False)"

definition stamp_of :: "cell \<Rightarrow> cell" where
  "stamp_of c = (case c of Number x \<Rightarrow> Stamp \<lfloor>x\<rfloor> | _ \<Rightarrow> c)"

definition to_datetime :: "(cell list \<Rightarrow> cell list option) \<Rightarrow> series \<Rightarrow> series option" where
  "to_datetime parse s =
     (case dtype s of
        Datetime64 \<Rightarrow> Some s
      | Int64 \<Rightarrow>
          if list_all fits_timestamp (vals s)
          then Some \<lparr>dtype = Datetime64, vals = map stamp_of (vals s)\<rparr> else None
      | Float64 \<Rightarrow>
          if list_all fits_timestamp (vals s)
          then Some \<lparr>dtype = Datetime64, vals = map stamp_of (vals s)\<rparr> else None
      | BoolT \<Rightarrow> None
      | Object \<Rightarrow>
          (case parse (vals s) of
             None \<Rightarrow> None
           | Some ts \<Rightarrow> Some \<lparr>dtype = Datetime64, vals = ts\<rparr>))"

definition is_datetime_column :: "(cell list \<Rightarrow> cell list option) \<Rightarrow> series \<Rightarrow> bool" where
  "is_datetime_column parse s =
     (if dtype s = Datetime64 then True
      else (case to_datetime parse s of Some d \<Rightarrow> True | None \<Rightarrow> False))"

text \<open>
  \<open>series.nunique() / len(series)\<close> divides two Python integers: an empty series raises
  ZeroDivisionError.
\<close>

definition is_categorical_column :: "series \<Rightarrow> py_error + bool" where
  "is_categorical_column s =
     (if dtype s = Object then
        (if length (vals s) = 0 then Inl ZeroDivisionError
         else Inr (real (nunique s) / real (length (vals s)) < 0.5 \<and> nunique s < 100))
      else Inr False)"

text \<open>\<open>pd.api.types.is_numeric_dtype\<close>: integers, floats and booleans.\<close>

definition is_numeric_dtype :: "series \<Rightarrow> bool" where
  "is_numeric_dtype s \<longleftrightarrow> dtype s = Int64 \<or> dtype s = Float64 \<or> dtype s = BoolT"

definition infer_column_type :: "(cell list \<Rightarrow> cell list option) \<Rightarrow> series \<Rightarrow> py_error + string" where
  "infer_column_type parse col_data =
     (if is_datetime_column parse col_data then Inr ''datetime''
      else (case is_categorical_column col_data of
              Inl e \<Rightarrow> Inl e
            | Inr True \<Rightarrow> Inr ''categorical''
            | Inr False \<Rightarrow>
                (if is_numeric_dtype col_data then
                   (if nunique col_data < 10 then Inr ''categorical'' else Inr ''numerical'')
                 else Inr ''text'')))"

fun infer_data_types ::
  "(cell list \<Rightarrow> cell list option) \<Rightarrow> (string \<times> series) list \<Rightarrow> py_error + (string \<times> string) list" where
  "infer_data_types parse [] = Inr []"
| "infer_data_types parse (c # cs) =
     (case infer_column_type parse (snd c) of
        Inl e \<Rightarrow> Inl e
      | Inr label \<Rightarrow>
          (case infer_data_types parse cs of
             Inl e \<Rightarrow> Inl e
           | Inr rest \<Rightarrow> Inr ((fst c, label) # rest)))"

subsection \<open>Missing values\<close>

record missing_values =
  total_missing :: nat
  missing_percentage_total :: pyfloat
  columns_missing :: "(string \<times> nat) list"
  columns_missing_percentage :: "(string \<times> real) list"

definition analyze_missing_values :: "frame \<Rightarrow> missing_values" where
  "analyze_missing_values data =
     (let missing_count = map (\<lambda>c. (fst c, isnull_sum (snd c))) (columns data);
          missing_percentage =
            map (\<lambda>c. (fst c, fl_bin (*) (np_div (snd c) (nrows data)) (Some 100))) missing_count
      in \<lparr>total_missing = sum_list (map snd missing_count),
          missing_percentage_total =
            fl_bin (*) (np_div (sum_list (map snd missing_count))
                               (nrows data * length (columns data))) (Some 100),
          columns_missing = filter (\<lambda>c. snd c > 0) missing_count,
          columns_missing_percentage =
            concat (map (\<lambda>c. case snd c of None \<Rightarrow> []
                               | Some p \<Rightarrow> if p > 0 then [(fst c, p)] else [])
                        missing_percentage)\<rparr>)"

subsection \<open>Quality metrics\<close>

record quality_metrics =
  overall_quality_score :: pyfloat
  completeness_score :: pyfloat
  uniqueness_score :: pyfloat

definition calculate_quality_metrics :: "frame \<Rightarrow> quality_metrics" where
  "calculate_quality_metrics data =
     (let total_cells = nrows data * length (columns data);
          missing = missing_cells data;
          quality_score = fl_bin (*) (Some 100) (fl_bin (-) (Some 1) (np_div missing total_cells));
          duplicate_penalty = fl_bin (*) (np_div (duplicated_sum data) (nrows data)) (Some 10);
          quality_score2 = fl_bin (-) quality_score duplicate_penalty
      in \<lparr>overall_quality_score = py_max0 quality_score2,
          completeness_score =
            fl_bin (*) (Some 100) (fl_bin (-) (Some 1) (np_div missing total_cells)),
          uniqueness_score =
            fl_bin (*) (Some 100)
              (fl_bin (-) (Some 1) (np_div (duplicated_sum data) (nrows data)))\<rparr>)"

subsection \<open>analyze\<close>

text \<open>
  The profile report. The statistical summary (the library's \<open>describe\<close>, variance and
  skewness of the numeric columns) and the memory estimate are computed by the library
  from the same table, touch no other field, and are left out of the record.
\<close>

record profile =
  p_overview :: overview
  p_data_types :: "(string \<times> string) list"
  p_missing_values :: missing_values
  p_quality_metrics :: quality_metrics

definition analyze :: "(cell list \<Rightarrow> cell list option) \<Rightarrow> frame \<Rightarrow> py_error + profile" where
  "analyze parse data =
     (case infer_data_types parse (columns data) of
        Inl e \<Rightarrow> Inl e
      | Inr types \<Rightarrow>
          Inr \<lparr>p_overview = get_overview data,
               p_data_types = types,
               p_missing_values = analyze_missing_values data,
               p_quality_metrics = calculate_quality_metrics data\<rparr>)"

section \<open>PipelineGenerator\<close>

subsection \<open>Python values and JSON documents\<close>

text \<open>
  The parameters of a step are any Python value. The model has the values the standard
  \<open>json\<close> encoder knows (None, booleans, integers, finite floats, strings, lists,
  tuples, dicts) and \<open>PyObject\<close> for every other object (a set, a DataFrame, a numpy
  scalar), named by its repr. Dict keys are strings, integers, booleans, None or tuples;
  float keys are outside the model.
\<close>

datatype pykey = KStr string | KInt int | KBool bool | KNone | KTuple "pykey list"

datatype pyval =
    PyNone | PyBool bool | PyInt int | PyFloat real | PyStr string
  | PyList "pyval list" | PyTuple "pyval list"
  | PyDict "(pykey \<times> pyval) list"
  | PyObject string

text \<open>
  A JSON document as a tree. \<open>json.dump\<close> followed by \<open>json.load\<close> is modelled on
  trees: the library's text writer and parser are inverse to each other on documents, and
  what the source adds is the conversion between Python values and documents.
\<close>

datatype json =
    JNull | JBool bool | JInt int | JFloat real | JStr string
  | JArr "json list" | JObj "(string \<times> json) list"

text \<open>\<open>str(i)\<close> of an integer, the way the encoder writes an integer key.\<close>

function digits :: "nat \<Rightarrow> string" where
  "digits n = (if n < 10 then [char_of (48 + n)] else digits (n div 10) @ [char_of (48 + n mod 10)])"
  by pat_completeness auto
termination
  by (relation "measure (\<lambda>n. n)") auto

definition str_int :: "int \<Rightarrow> string" where
  "str_int i = (if i < 0 then CHR ''-'' # digits (nat (- i)) else digits (nat i))"

text \<open>
  The encoder with the defaults \<open>json.dump\<close> is called with: a key that is not a
  string is coerced to one, a tuple key and an unknown object raise TypeError
  (\<open>None\<close> here), a tuple is written as an array.
\<close>

fun json_key :: "pykey \<Rightarrow> string option" where
  "json_key (KStr s) = Some s"
| "json_key (KInt i) = Some (str_int i)"
| "json_key (KBool b) = Some (if b then ''true'' else ''false'')"
| "json_key KNone = Some ''null''"
| "json_key (KTuple ks) = None"

fun json_encode :: "pyval \<Rightarrow> json option"
  and json_encode_list :: "pyval list \<Rightarrow> json list option"
  and json_encode_items :: "(pykey \<times> pyval) list \<Rightarrow> (string \<times> json) list option" where
  "json_encode PyNone = Some JNull"
| "json_encode (PyBool b) = Some (JBool b)"
| "json_encode (PyInt i) = Some (JInt i)"
| "json_encode (PyFloat x) = Some (JFloat x)"
| "json_encode (PyStr s) = Some (JStr s)"
| "json_encode (PyList xs) = map_option JArr (json_encode_list xs)"
| "json_encode (PyTuple xs) = map_option JArr (json_encode_list xs)"
| "json_encode (PyDict kvs) = map_option JObj (json_encode_items kvs)"
| "json_encode (PyObject r) = None"
| "json_encode_list [] = Some []"
| "json_encode_list (x # xs) =
     (case json_encode x of None \<Rightarrow> None
      | Some j \<Rightarrow> (case json_encode_list xs of None \<Rightarrow> None | Some js \<Rightarrow> Some (j # js)))"
| "json_encode_items [] = Some []"
| "json_encode_items (kv # kvs) =
     (case json_key (fst kv) of None \<Rightarrow> None
      | Some k \<Rightarrow>
         (case json_encode (snd kv) of None \<Rightarrow> None
          | Some j \<Rightarrow>
             (case json_encode_items kvs of None \<Rightarrow> None
              | Some js \<Rightarrow> Some ((k, j) # js))))"

text \<open>
  The decoder builds a dict by assignment: a repeated key keeps its first position and
  takes the last value. Arrays come back as lists, keys as strings.
\<close>

fun dict_set :: "pykey \<Rightarrow> pyval \<Rightarrow> (pykey \<times> pyval) list \<Rightarrow> (pykey \<times> pyval) list" where
  "dict_set k v [] = [(k, v)]"
| "dict_set k v (kv # kvs) = (if fst kv = k then (k, v) # kvs else kv # dict_set k v kvs)"

fun json_decode :: "json \<Rightarrow> pyval"
  and json_decode_list :: "json list \<Rightarrow> pyval list"
  and json_decode_items :: "(string \<times> json) list \<Rightarrow> (pykey \<times> pyval) list \<Rightarrow> (pykey \<times> pyval) list" where
  "json_decode JNull = PyNone"
| "json_decode (JBool b) = PyBool b"
| "json_decode (JInt i) = PyInt i"
| "json_decode (JFloat x) = PyFloat x"
| "json_decode (JStr s) = PyStr s"
| "json_decode (JArr js) = PyList (json_decode_list js)"
| "json_decode (JObj kvs) = PyDict (json_decode_items kvs [])"
| "json_decode_list [] = []"
| "json_decode_list (j # js) = json_decode j # json_decode_list js"
| "json_decode_items [] acc = acc"
| "json_decode_items (kv # kvs) acc =
     json_decode_items kvs (dict_set (KStr (fst kv)) (json_decode (snd kv)) acc)"


subsection \<open>Steps and the generator\<close>

text \<open>
  \<open>add_step\<close> reads the clock (\<open>datetime.now().isoformat()\<close>); the reading is the
  argument \<open>now\<close>.
\<close>

record step =
  s_name :: string
  s_function :: string
  s_parameters :: pyval
  s_timestamp :: string

record pipeline_generator =
  pipeline_steps :: "step list"
  pipeline_metadata :: pyval

definition pipeline_init :: pipeline_generator where
  "pipeline_init = \<lparr>pipeline_steps = [], pipeline_metadata = PyDict []\<rparr>"

definition add_step ::
  "string \<Rightarrow> string \<Rightarrow> pyval \<Rightarrow> string \<Rightarrow> pipeline_generator \<Rightarrow> pipeline_generator" where
  "add_step step_name step_function parameters now g =
     g\<lparr>pipeline_steps := pipeline_steps g @
         [\<lparr>s_name = step_name, s_function = step_function,
           s_parameters = parameters, s_timestamp = now\<rparr>]\<rparr>"

definition step_dict :: "step \<Rightarrow> pyval" where
  "step_dict s =
     PyDict [(KStr ''name'', PyStr (s_name s)), (KStr ''function'', PyStr (s_function s)),
             (KStr ''parameters'', s_parameters s), (KStr ''timestamp'', PyStr (s_timestamp s))]"

subsection \<open>Files\<close>

text \<open>
  What \<open>save_pipeline\<close> can leave in a file: rendered code, a JSON document, a pickled
  generator, or the cut-off text of a write that raised half-way (the file has been
  opened for writing, so it exists). Whether a directory can be created, a file opened or
  an object pickled is decided by the operating system and the pickler: \<open>os_model\<close>
  holds these answers.
\<close>

datatype content = Text string | Json json | Pickle pipeline_generator | Truncated

record filesystem =
  dirs :: "string list"
  files :: "string \<Rightarrow> content option"

record os_model =
  mkdir_ok :: "string \<Rightarrow> bool"
  open_ok :: "string \<Rightarrow> bool"
  pickle_ok :: "pipeline_generator \<Rightarrow> bool"

text \<open>
  \<open>os.path.dirname\<close> on POSIX paths: the part before the last slash, without trailing
  slashes unless it consists of slashes only.
\<close>

definition dirname :: "string \<Rightarrow> string" where
  "dirname p =
     (let head = rev (dropWhile (\<lambda>c. c \<noteq> CHR ''/'') (rev p))
      in if list_all (\<lambda>c. c = CHR ''/'') head then head
         else rev (dropWhile (\<lambda>c. c = CHR ''/'') (rev head)))"

text \<open>
  \<open>os.makedirs(d, exist_ok=True)\<close>: the empty path raises FileNotFoundError, an existing
  directory is accepted, otherwise the operating system decides.
\<close>

definition makedirs :: "os_model \<Rightarrow> string \<Rightarrow> filesystem \<Rightarrow> py_error + filesystem" where
  "makedirs os d fs =
     (if d = [] then Inl OSError
      else if d \<in> set (dirs fs) then Inr fs
      else if mkdir_ok os d then Inr (fs\<lparr>dirs := d # dirs fs\<rparr>)
      else Inl OSError)"

definition write_file :: "filesystem \<Rightarrow> string \<Rightarrow> content \<Rightarrow> filesystem" where
  "write_file fs p c = fs\<lparr>files := (files fs)(p \<mapsto> c)\<rparr>"

definition pipeline_data :: "string \<Rightarrow> pipeline_generator \<Rightarrow> pyval" where
  "pipeline_data now g =
     PyDict [(KStr ''metadata'', pipeline_metadata g),
             (KStr ''steps'', PyList (map step_dict (pipeline_steps g))),
             (KStr ''generated_at'', PyStr now)]"

text \<open>
  \<open>save_pipeline\<close>. The body is one \<open>try\<close> block: any exception gives \<open>False\<close>.
  The renderer of the python format (\<open>generate_python_code\<close>) is passed as a function;
  no property below depends on what it renders. The format is compared with the three
  known names by an \<open>if/elif\<close> chain with no \<open>else\<close>: any other format falls through
  to \<open>return True\<close>.
\<close>

definition save_pipeline ::
  "os_model \<Rightarrow> (pipeline_generator \<Rightarrow> py_error + string) \<Rightarrow> string \<Rightarrow>
   pipeline_generator \<Rightarrow> filesystem \<Rightarrow> string \<Rightarrow> string \<Rightarrow> bool \<times> filesystem" where
  "save_pipeline os generate_python_code now g fs filepath format =
     (case makedirs os (dirname filepath) fs of
        Inl e \<Rightarrow> (False, fs)
      | Inr fs1 \<Rightarrow>
          if format = ''python'' then
            (case generate_python_code g of
               Inl e \<Rightarrow> (False, fs1)
             | Inr code \<Rightarrow>
                 if open_ok os filepath then (True, write_file fs1 filepath (Text code))
                 else (False, fs1))
          else if format = ''json'' then
            (if open_ok os filepath then
               (case json_encode (pipeline_data now g) of
                  None \<Rightarrow> (False, write_file fs1 filepath Truncated)
                | Some doc \<Rightarrow> (True, write_file fs1 filepath (Json doc)))
             else (False, fs1))
          else if format = ''pickle'' then
            (if open_ok os filepath then
               (if pickle_ok os g then (True, write_file fs1 filepath (Pickle g))
                else (False, write_file fs1 filepath Truncated))
             else (False, fs1))
          else (True, fs1))"

subsection \<open>Reading an exported document back\<close>

text \<open>
  The reader's side of the round trip: parse the file (\<open>json.load\<close>) and read, for each
  entry of \<open>steps\<close>, its name, function and parameters.
\<close>

fun dict_get :: "pyval \<Rightarrow> string \<Rightarrow> pyval option" where
  "dict_get (PyDict kvs) k = map_of kvs (KStr k)"
| "dict_get v k = None"

definition parsed_step :: "pyval \<Rightarrow> (pyval \<times> pyval \<times> pyval) option" where
  "parsed_step s =
     (case dict_get s ''name'' of None \<Rightarrow> None
      | Some n \<Rightarrow>
         (case dict_get s ''function'' of None \<Rightarrow> None
          | Some f \<Rightarrow>
             (case dict_get s ''parameters'' of None \<Rightarrow> None
              | Some p \<Rightarrow> Some (n, f, p))))"

fun those_steps :: "pyval list \<Rightarrow> (pyval \<times> pyval \<times> pyval) list option" where
  "those_steps [] = Some []"
| "those_steps (s # ss) =
     (case parsed_step s of None \<Rightarrow> None
      | Some t \<Rightarrow> (case those_steps ss of None \<Rightarrow> None | Some ts \<Rightarrow> Some (t # ts)))"

definition parsed_steps :: "pyval \<Rightarrow> (pyval \<times> pyval \<times> pyval) list option" where
  "parsed_steps doc =
     (case dict_get doc ''steps'' of
        Some (PyList ss) \<Rightarrow> those_steps ss
      | _ \<Rightarrow> None)"

definition export_and_parse ::
  "os_model \<Rightarrow> (pipeline_generator \<Rightarrow> py_error + string) \<Rightarrow> string \<Rightarrow>
   pipeline_generator \<Rightarrow> filesystem \<Rightarrow> string \<Rightarrow> (pyval \<times> pyval \<times> pyval) list option" where
  "export_and_parse os generate_python_code now g fs filepath =
     (case save_pipeline os generate_python_code now g fs filepath ''json'' of
        (True, fs1) \<Rightarrow>
          (case files fs1 filepath of
             Some (Json doc) \<Rightarrow> parsed_steps (json_decode doc)
           | _ \<Rightarrow> None)
      | (False, fs1) \<Rightarrow> None)"

text \<open>
  A sequence of \<open>add_step\<close> calls, each given as (name, function, parameters, clock
  reading), with the step a call records and the triple a reader is expected to find.
\<close>

fun add_steps :: "(string \<times> string \<times> pyval \<times> string) list \<Rightarrow> pipeline_generator \<Rightarrow> pipeline_generator" where
  "add_steps [] g = g"
| "add_steps (a # as) g =
     add_steps as (add_step (fst a) (fst (snd a)) (fst (snd (snd a))) (snd (snd (snd a))) g)"

text \<open>
  The values JSON holds natively: None, booleans, numbers, strings, lists of such values,
  and dicts with (distinct) string keys over such values.
\<close>

fun json_native :: "pyval \<Rightarrow> bool"
  and json_native_list :: "pyval list \<Rightarrow> bool"
  and json_native_items :: "(pykey \<times> pyval) list \<Rightarrow> bool" where
  "json_native PyNone = True"
| "json_native (PyBool b) = True"
| "json_native (PyInt i) = True"
| "json_native (PyFloat x) = True"
| "json_native (PyStr s) = True"
| "json_native (PyList xs) = json_native_list xs"
| "json_native (PyTuple xs) = False"
| "json_native (PyDict kvs) = (distinct (map fst kvs) \<and> json_native_items kvs)"
| "json_native (PyObject r) = False"
| "json_native_list [] = True"
| "json_native_list (x # xs) = (json_native x \<and> json_native_list xs)"
| "json_native_items [] = True"
| "json_native_items (kv # kvs) =
     ((case fst kv of KStr s \<Rightarrow> True | _ \<Rightarrow> False) \<and> json_native (snd kv) \<and> json_native_items kvs)"

text \<open>The items of a decoded object whose keys are distinct.\<close>

definition decoded :: "(string \<times> json) list \<Rightarrow> (pykey \<times> pyval) list" where
  "decoded js = map (\<lambda>kj. (KStr (fst kj), json_decode (snd kj))) js"

definition call_step :: "string \<times> string \<times> pyval \<times> string \<Rightarrow> step" where
  "call_step a = \<lparr>s_name = fst a, s_function = fst (snd a),
                   s_parameters = fst (snd (snd a)), s_timestamp = snd (snd (snd a))\<rparr>"

definition call_triple :: "string \<times> string \<times> pyval \<times> string \<Rightarrow> pyval \<times> pyval \<times> pyval" where
  "call_triple a = (PyStr (fst a), PyStr (fst (snd a)), fst (snd (snd a)))"

section \<open>FeatureEngineer\<close>

subsection \<open>Column access\<close>

definition column_names :: "frame \<Rightarrow> string list" where
  "column_names f = map fst (columns f)"

text \<open>\<open>frame[name]\<close>: a missing label raises KeyError.\<close>

definition getitem :: "frame \<Rightarrow> string \<Rightarrow> py_error + series" where
  "getitem f name = (case map_of (columns f) name of None \<Rightarrow> Inl KeyError | Some s \<Rightarrow> Inr s)"

text \<open>
  \<open>frame[name] = series\<close>: an existing column is replaced where it stands, a new one is
  appended.
\<close>

fun set_column :: "string \<Rightarrow> series \<Rightarrow> (string \<times> series) list \<Rightarrow> (string \<times> series) list" where
  "set_column name s [] = [(name, s)]"
| "set_column name s (c # cs) =
     (if fst c = name then (name, s) # cs else c # set_column name s cs)"

definition setitem :: "string \<Rightarrow> series \<Rightarrow> frame \<Rightarrow> frame" where
  "setitem name s f = f\<lparr>columns := set_column name s (columns f)\<rparr>"

text \<open>\<open>select_dtypes(include=[np.number])\<close>: integer and float columns, not booleans.\<close>

definition is_number :: "series \<Rightarrow> bool" where
  "is_number s \<longleftrightarrow> dtype s = Int64 \<or> dtype s = Float64"

definition select_number :: "(string \<times> series) list \<Rightarrow> (string \<times> series) list" where
  "select_number cs = filter (\<lambda>c. is_number (snd c)) cs"

definition numerical_cols :: "frame \<Rightarrow> string list" where
  "numerical_cols f = map fst (select_number (columns f))"

subsection \<open>Arithmetic on columns\<close>

text \<open>
  Elementwise product and quotient; a missing operand gives a missing result. A quotient
  by zero is infinite or nan in the library; the only division of the module is guarded
  against a zero denominator, and infinities are outside the model.
\<close>

fun cell_mul :: "cell \<Rightarrow> cell \<Rightarrow> cell" where
  "cell_mul (Number a) (Number b) = Number (a * b)"
| "cell_mul a b = NaN"

fun cell_div :: "cell \<Rightarrow> cell \<Rightarrow> cell" where
  "cell_div (Number a) (Number b) = (if b = 0 then NaN else Number (a / b))"
| "cell_div a b = NaN"

definition series_mul :: "series \<Rightarrow> series \<Rightarrow> series" where
  "series_mul s1 s2 =
     \<lparr>dtype = (if dtype s1 = Int64 \<and> dtype s2 = Int64 then Int64 else Float64),
      vals = map2 cell_mul (vals s1) (vals s2)\<rparr>"

definition series_div :: "series \<Rightarrow> series \<Rightarrow> series" where
  "series_div s1 s2 = \<lparr>dtype = Float64, vals = map2 cell_div (vals s1) (vals s2)\<rparr>"

text \<open>\<open>(series != 0).all()\<close>: a missing value differs from zero.\<close>

definition no_zero :: "series \<Rightarrow> bool" where
  "no_zero s = list_all (\<lambda>c. c \<noteq> Number 0) (vals s)"

subsection \<open>Rolling statistics\<close>

text \<open>
  \<open>rolling(window=3, min_periods=1)\<close>: the window of row \<open>i\<close> holds rows \<open>i-2 .. i\<close>
  (fewer at the start), its observations are the non-missing values. The mean needs one
  observation. The standard deviation is the sample one (the library's default, one
  degree of freedom removed): it needs two observations and is missing on a single one.
\<close>

definition window :: "cell list \<Rightarrow> nat \<Rightarrow> cell list" where
  "window xs i = drop (Suc i - 3) (take (Suc i) xs)"

fun observations :: "cell list \<Rightarrow> real list" where
  "observations [] = []"
| "observations (Number x # cs) = x # observations cs"
| "observations (c # cs) = observations cs"

definition mean :: "real list \<Rightarrow> real" where
  "mean xs = sum_list xs / real (length xs)"

definition window_mean :: "cell list \<Rightarrow> cell" where
  "window_mean w =
     (let obs = observations w in if 1 \<le> length obs then Number (mean obs) else NaN)"

definition window_std :: "cell list \<Rightarrow> cell" where
  "window_std w =
     (let obs = observations w in
      if 2 \<le> length obs
      then Number (sqrt (sum_list (map (\<lambda>x. (x - mean obs)\<^sup>2) obs) / (real (length obs) - 1)))
      else NaN)"

definition rolling_mean :: "series \<Rightarrow> series" where
  "rolling_mean s =
     \<lparr>dtype = Float64, vals = map (\<lambda>i. window_mean (window (vals s) i)) [0..<length (vals s)]\<rparr>"

definition rolling_std :: "series \<Rightarrow> series" where
  "rolling_std s =
     \<lparr>dtype = Float64, vals = map (\<lambda>i. window_std (window (vals s) i)) [0..<length (vals s)]\<rparr>"

subsection \<open>The libraries\<close>

text \<open>
  What the module takes from pandas and scikit-learn without computing it itself: the
  string parser behind \<open>pd.to_datetime\<close>, the calendar fields of a timestamp
  (\<open>.dt.year\<close> and the others), and the feature scorer. \<open>SelectKBest.fit_transform\<close>
  validates its input before it scores anything: it raises ValueError on a predictor
  holding a missing value, which \<open>contains_nan\<close> below tests; \<open>fit_ok\<close> stands for
  the rest of that validation (the number of samples, the target).
  \<open>mutual_info\<close> is the score \<open>mutual_info_classif\<close> estimates for one predictor
  column against the target in that run.
\<close>

record library =
  parse_datetimes :: "cell list \<Rightarrow> cell list option"
  cal_year :: "int \<Rightarrow> int"
  cal_month :: "int \<Rightarrow> int"
  cal_day :: "int \<Rightarrow> int"
  cal_dayofweek :: "int \<Rightarrow> int"
  cal_quarter :: "int \<Rightarrow> int"
  fit_ok :: "(string \<times> series) list \<Rightarrow> series \<Rightarrow> bool"
  mutual_info :: "series \<Rightarrow> series \<Rightarrow> real"

text \<open>
  A calendar field of a datetime column: an integer column, or a float column with nan
  where the timestamp is missing.
\<close>

definition dt_field :: "(int \<Rightarrow> int) \<Rightarrow> series \<Rightarrow> series" where
  "dt_field g s =
     \<lparr>dtype = (if NaN \<in> set (vals s) then Float64 else Int64),
      vals = map (\<lambda>c. case c of Stamp t \<Rightarrow> Number (of_int (g t)) | _ \<Rightarrow> NaN) (vals s)\<rparr>"

subsection \<open>Names\<close>

text \<open>\<open>str.lower\<close> on ASCII letters, and the substring test \<open>sub in s\<close>.\<close>

definition lower_char :: "char \<Rightarrow> char" where
  "lower_char c =
     (if 65 \<le> (of_char c :: nat) \<and> (of_char c :: nat) \<le> 90
      then char_of ((of_char c :: nat) + 32) else c)"

definition lower :: "string \<Rightarrow> string" where
  "lower s = map lower_char s"

fun is_substring :: "string \<Rightarrow> string \<Rightarrow> bool" where
  "is_substring sub [] = (sub = [])"
| "is_substring sub (c # cs) = (take (length sub) (c # cs) = sub \<or> is_substring sub cs)"

definition is_temporal_name :: "string \<Rightarrow> bool" where
  "is_temporal_name col \<longleftrightarrow> is_substring ''date'' (lower col) \<or> is_substring ''time'' (lower col)"

definition mul_name :: "string \<Rightarrow> string \<Rightarrow> string" where
  "mul_name col1 col2 = col1 @ ''_x_'' @ col2"

definition div_name :: "string \<Rightarrow> string \<Rightarrow> string" where
  "div_name col1 col2 = col1 @ ''_div_'' @ col2"

subsection \<open>The engineer and the objects it works on\<close>

text \<open>
  The tables live in a store, a list of frames addressed by position: \<open>copy()\<close> appends
  a new frame, a column assignment changes the frame at the address it is done on. The
  instance and the store are threaded through every method; a method returns an address
  or the exception that left it.
\<close>

record feature_engineer =
  max_features :: int
  created_features :: "string list"
  selected_features :: "string list"
  feature_importance :: "(string \<times> real) list"

definition engineer_init :: "int \<Rightarrow> feature_engineer" where
  "engineer_init mf =
     \<lparr>max_features = mf, created_features = [], selected_features = [],
      feature_importance = []\<rparr>"

type_synonym store = "frame list"

definition df_copy :: "nat \<Rightarrow> store \<Rightarrow> nat \<times> store" where
  "df_copy a h = (length h, h @ [h ! a])"

subsection \<open>Temporal features\<close>

text \<open>
  The loop over the candidate columns, on the working copy. The body is a \<open>try\<close> whose
  first statement is the conversion: when it raises, nothing has been assigned and the
  column is skipped. The fields are read from the column just assigned; the names
  assigned in between are longer than the column's, so it is still the converted one.
\<close>

fun temporal_loop :: "library \<Rightarrow> string list \<Rightarrow> frame \<times> string list \<Rightarrow> frame \<times> string list" where
  "temporal_loop lib [] (f, created) = (f, created)"
| "temporal_loop lib (col # cols) (f, created) =
     (case getitem f col of
        Inl e \<Rightarrow> temporal_loop lib cols (f, created)
      | Inr s \<Rightarrow>
          (case to_datetime (parse_datetimes lib) s of
             None \<Rightarrow> temporal_loop lib cols (f, created)
           | Some d \<Rightarrow>
               temporal_loop lib cols
                 (setitem (col @ ''_quarter'') (dt_field (cal_quarter lib) d)
                   (setitem (col @ ''_dayofweek'') (dt_field (cal_dayofweek lib) d)
                     (setitem (col @ ''_day'') (dt_field (cal_day lib) d)
                       (setitem (col @ ''_month'') (dt_field (cal_month lib) d)
                         (setitem (col @ ''_year'') (dt_field (cal_year lib) d)
                           (setitem col d f))))),
                  created @ [col @ ''_year'', col @ ''_month'', col @ ''_day'',
                             col @ ''_dayofweek'', col @ ''_quarter''])))"

definition create_temporal_features ::
  "library \<Rightarrow> nat \<Rightarrow> feature_engineer \<times> store \<Rightarrow> nat \<times> feature_engineer \<times> store" where
  "create_temporal_features lib data st =
     (let eng = fst st;
          (engineered_data, h) = df_copy data (snd st);
          datetime_columns = filter is_temporal_name (column_names (h ! engineered_data));
          (f, created) = temporal_loop lib datetime_columns (h ! engineered_data, created_features eng)
      in (engineered_data, eng\<lparr>created_features := created\<rparr>, h[engineered_data := f]))"

subsection \<open>Interaction features\<close>

text \<open>
  The pairs the two nested loops visit, in their order: each column with every later one.
\<close>

fun pairs_of :: "string list \<Rightarrow> (string \<times> string) list" where
  "pairs_of [] = []"
| "pairs_of (c # cs) = map (Pair c) cs @ pairs_of cs"

text \<open>
  One pass of the inner loop body per pair, on the working copy. Both columns are read
  from the working copy; the product's name is longer than either, so the reads after the
  first assignment see the same columns.
\<close>

fun interaction_loop ::
  "(string \<times> string) list \<Rightarrow> frame \<times> string list \<Rightarrow> py_error + frame \<times> string list" where
  "interaction_loop [] (f, created) = Inr (f, created)"
| "interaction_loop (p # ps) (f, created) =
     (case getitem f (fst p) of
        Inl e \<Rightarrow> Inl e
      | Inr s1 \<Rightarrow>
          (case getitem f (snd p) of
             Inl e \<Rightarrow> Inl e
           | Inr s2 \<Rightarrow>
               (if no_zero s2
                then interaction_loop ps
                       (setitem (div_name (fst p) (snd p)) (series_div s1 s2)
                          (setitem (mul_name (fst p) (snd p)) (series_mul s1 s2) f),
                        created @ [mul_name (fst p) (snd p), div_name (fst p) (snd p)])
                else interaction_loop ps
                       (setitem (mul_name (fst p) (snd p)) (series_mul s1 s2) f,
                        created @ [mul_name (fst p) (snd p)]))))"

definition first_five :: "string list \<Rightarrow> string list" where
  "first_five cols = (if length cols > 5 then take 5 cols else cols)"

definition create_interaction_features ::
  "nat \<Rightarrow> feature_engineer \<times> store \<Rightarrow> (py_error + nat) \<times> feature_engineer \<times> store" where
  "create_interaction_features data st =
     (let eng = fst st;
          (engineered_data, h) = df_copy data (snd st);
          cols = first_five (numerical_cols (h ! data))
      in case interaction_loop (pairs_of cols) (h ! engineered_data, created_features eng) of
           Inl e \<Rightarrow> (Inl e, eng, h)
         | Inr (f, created) \<Rightarrow>
             (Inr engineered_data, eng\<lparr>created_features := created\<rparr>, h[engineered_data := f]))"

subsection \<open>Statistical features\<close>

fun statistical_loop ::
  "string list \<Rightarrow> frame \<times> string list \<Rightarrow> py_error + frame \<times> string list" where
  "statistical_loop [] (f, created) = Inr (f, created)"
| "statistical_loop (col # cols) (f, created) =
     (case getitem f col of
        Inl e \<Rightarrow> Inl e
      | Inr s \<Rightarrow>
          statistical_loop cols
            (setitem (col @ ''_rolling_std'') (rolling_std s)
               (setitem (col @ ''_rolling_mean'') (rolling_mean s) f),
             created @ [col @ ''_rolling_mean'', col @ ''_rolling_std'']))"

definition create_statistical_features ::
  "nat \<Rightarrow> feature_engineer \<times> store \<Rightarrow> (py_error + nat) \<times> feature_engineer \<times> store" where
  "create_statistical_features data st =
     (let eng = fst st;
          (engineered_data, h) = df_copy data (snd st);
          cols = numerical_cols (h ! data)
      in if length cols \<ge> 3 then
           (case statistical_loop (take 3 cols) (h ! engineered_data, created_features eng) of
              Inl e \<Rightarrow> (Inl e, eng, h)
            | Inr (f, created) \<Rightarrow>
                (Inr engineered_data, eng\<lparr>created_features := created\<rparr>, h[engineered_data := f]))
         else (Inr engineered_data, eng, h))"

subsection \<open>Feature selection\<close>

text \<open>
  \<open>SelectKBest.get_support\<close>: the mask of the \<open>k\<close> highest scores, taken as the last
  \<open>k\<close> positions of a stable ascending sort of the scores.
\<close>

definition argsort :: "real list \<Rightarrow> nat list" where
  "argsort scores = sort_key (\<lambda>i. scores ! i) [0..<length scores]"

definition get_support :: "nat \<Rightarrow> real list \<Rightarrow> bool list" where
  "get_support k scores =
     (let top = drop (length scores - k) (argsort scores)
      in map (\<lambda>i. i \<in> set top) [0..<length scores])"

definition masked :: "'a list \<Rightarrow> bool list \<Rightarrow> 'a list" where
  "masked xs support = map fst (filter snd (zip xs support))"

text \<open>\<open>dict[key] = value\<close> on the importance mapping.\<close>

fun set_score :: "string \<Rightarrow> real \<Rightarrow> (string \<times> real) list \<Rightarrow> (string \<times> real) list" where
  "set_score k v [] = [(k, v)]"
| "set_score k v (kv # kvs) = (if fst kv = k then (k, v) # kvs else kv # set_score k v kvs)"

text \<open>\<open>frame[names]\<close>: the named columns in the order of the names.\<close>

fun take_columns :: "frame \<Rightarrow> string list \<Rightarrow> py_error + (string \<times> series) list" where
  "take_columns f [] = Inr []"
| "take_columns f (n # ns) =
     (case getitem f n of
        Inl e \<Rightarrow> Inl e
      | Inr s \<Rightarrow> (case take_columns f ns of Inl e \<Rightarrow> Inl e | Inr cs \<Rightarrow> Inr ((n, s) # cs)))"

text \<open>The input validation of the selector: no predictor value may be missing.\<close>

definition contains_nan :: "(string \<times> series) list \<Rightarrow> bool" where
  "contains_nan cs = list_ex (\<lambda>c. NaN \<in> set (vals (snd c))) cs"

text \<open>
  \<open>_select_features\<close>. \<open>X\<close> and \<open>X_numeric\<close> are new tables that are only read. With no
  numeric predictor the method returns \<open>data\<close> itself, the same object. The selector
  refuses a negative \<open>k\<close> and predictors with a missing value; the method has no
  \<open>try\<close>, so the ValueError leaves it. The result is a new table: the copy of the
  selected columns of \<open>X\<close>, with the target assigned last.
\<close>

definition select_features ::
  "library \<Rightarrow> nat \<Rightarrow> string \<Rightarrow> feature_engineer \<times> store \<Rightarrow>
   (py_error + nat) \<times> feature_engineer \<times> store" where
  "select_features lib data target_column st =
     (let eng = fst st; h = snd st in
      case getitem (h ! data) target_column of
        Inl e \<Rightarrow> (Inl e, eng, h)
      | Inr y \<Rightarrow>
          (let X = (h ! data)\<lparr>columns := filter (\<lambda>c. fst c \<noteq> target_column) (columns (h ! data))\<rparr>;
               X_numeric = select_number (columns X)
           in if length X_numeric = 0 then (Inr data, eng, h)
              else if min (max_features eng) (int (length X_numeric)) < 0
                then (Inl ValueError, eng, h)
              else if contains_nan X_numeric \<or> \<not> fit_ok lib X_numeric y
                then (Inl ValueError, eng, h)
              else
                (let k = nat (min (max_features eng) (int (length X_numeric)));
                     scores = map (\<lambda>c. mutual_info lib (snd c) y) X_numeric;
                     selected = masked (map fst X_numeric) (get_support k scores);
                     eng1 = eng\<lparr>selected_features := selected,
                                feature_importance :=
                                  fold (\<lambda>fs. set_score (fst fs) (snd fs))
                                       (zip (map fst X_numeric) scores) (feature_importance eng)\<rparr>
                 in case take_columns X selected of
                      Inl e \<Rightarrow> (Inl e, eng1, h)
                    | Inr cs \<Rightarrow>
                        (Inr (length h), eng1,
                         h @ [setitem target_column y (X\<lparr>columns := cs\<rparr>)]))))"

subsection \<open>create_features\<close>

text \<open>
  The target is used when it is given, not the empty string, and a column of the
  engineered table.
\<close>

definition create_features ::
  "library \<Rightarrow> nat \<Rightarrow> string option \<Rightarrow> feature_engineer \<times> store \<Rightarrow>
   (py_error + nat) \<times> feature_engineer \<times> store" where
  "create_features lib data target_column st =
     (let (e0, h0) = df_copy data (snd st);
          (e1, st1) = create_temporal_features lib e0 (fst st, h0)
      in case create_interaction_features e1 st1 of
           (Inl e, st2) \<Rightarrow> (Inl e, st2)
         | (Inr e2, st2) \<Rightarrow>
             (case create_statistical_features e2 st2 of
                (Inl e, st3) \<Rightarrow> (Inl e, st3)
              | (Inr e3, st3) \<Rightarrow>
                  (case target_column of
                     None \<Rightarrow> (Inr e3, st3)
                   | Some t \<Rightarrow>
                       if t \<noteq> [] \<and> t \<in> set (column_names (snd st3 ! e3))
                       then select_features lib e3 t st3
                       else (Inr e3, st3))))"

subsection \<open>The engineered table as a function of the input table\<close>

text \<open>
  The table the three feature steps build from a table and the names they record, with
  the tests \<open>create_features\<close> and \<open>_select_features\<close> make before selecting: written
  once more as functions of the table alone, to state what a call computes.
\<close>

definition engineer_frame :: "library \<Rightarrow> frame \<Rightarrow> py_error + frame \<times> string list" where
  "engineer_frame lib f =
     (let (f1, c1) = temporal_loop lib (filter is_temporal_name (column_names f)) (f, [])
      in case interaction_loop (pairs_of (first_five (numerical_cols f1))) (f1, c1) of
           Inl e \<Rightarrow> Inl e
         | Inr (f2, c2) \<Rightarrow>
             if length (numerical_cols f2) \<ge> 3
             then statistical_loop (take 3 (numerical_cols f2)) (f2, c2)
             else Inr (f2, c2))"

definition predictors :: "frame \<Rightarrow> string \<Rightarrow> (string \<times> series) list" where
  "predictors E t = select_number (filter (\<lambda>c. fst c \<noteq> t) (columns E))"


definition chosen :: "library \<Rightarrow> int \<Rightarrow> frame \<Rightarrow> string \<Rightarrow> string list" where
  "chosen lib mf E t =
     (case getitem E t of
        Inl e \<Rightarrow> []
      | Inr y \<Rightarrow>
          masked (map fst (predictors E t))
            (get_support (nat (min mf (int (length (predictors E t)))))
               (map (\<lambda>c. mutual_info lib (snd c) y) (predictors E t))))"



subsection \<open>What a call returns\<close>

text \<open>The table at the returned address, or the exception, and one of its columns.\<close>

definition returned_table ::
  "(py_error + nat) \<times> feature_engineer \<times> store \<Rightarrow> py_error + frame" where
  "returned_table res =
     (case fst res of Inl e \<Rightarrow> Inl e | Inr a \<Rightarrow> Inr (snd (snd res) ! a))"

definition returned_column ::
  "(py_error + nat) \<times> feature_engineer \<times> store \<Rightarrow> string \<Rightarrow> py_error + cell list" where
  "returned_column res name =
     (case returned_table res of
        Inl e \<Rightarrow> Inl e
      | Inr f \<Rightarrow> (case getitem f name of Inl e \<Rightarrow> Inl e | Inr s \<Rightarrow> Inr (vals s)))"

subsection \<open>The feature columns as the specification describes them\<close>

text \<open>
  The table the temporal step leaves: the input table itself when no column name contains
  \<open>date\<close> or \<open>time\<close>.
\<close>

definition temporal_frame :: "library \<Rightarrow> frame \<Rightarrow> frame" where
  "temporal_frame lib f =
     fst (temporal_loop lib (filter is_temporal_name (column_names f)) (f, []))"

text \<open>
  The specification's interaction features, computed from one table without any
  assignment: for a pair of columns the product, named by both, and the ratio of the
  first to the second only if the second holds no zero; for a table, these for every pair
  of its first at most five numeric columns, each column with every later one.
\<close>

definition pair_columns_spec :: "frame \<Rightarrow> string \<times> string \<Rightarrow> (string \<times> series) list" where
  "pair_columns_spec f p =
     (case getitem f (fst p) of
        Inl e \<Rightarrow> []
      | Inr s1 \<Rightarrow>
          (case getitem f (snd p) of
             Inl e \<Rightarrow> []
           | Inr s2 \<Rightarrow>
               (mul_name (fst p) (snd p), series_mul s1 s2) #
               (if no_zero s2 then [(div_name (fst p) (snd p), series_div s1 s2)] else [])))"

definition interaction_columns_spec :: "frame \<Rightarrow> (string \<times> series) list" where
  "interaction_columns_spec f =
     concat (map (pair_columns_spec f) (pairs_of (first_five (numerical_cols f))))"

text \<open>
  The specification's statistical features: for a table with at least three numeric
  columns, the rolling mean and the rolling standard deviation of each of the first
  three.
\<close>

definition column_stats_spec :: "frame \<Rightarrow> string \<Rightarrow> (string \<times> series) list" where
  "column_stats_spec f col =
     (case getitem f col of
        Inl e \<Rightarrow> []
      | Inr s \<Rightarrow> [(col @ ''_rolling_mean'', rolling_mean s), (col @ ''_rolling_std'', rolling_std s)])"

definition rolling_columns_spec :: "frame \<Rightarrow> (string \<times> series) list" where
  "rolling_columns_spec f =
     (if length (numerical_cols f) \<ge> 3
      then concat (map (column_stats_spec f) (take 3 (numerical_cols f)))
      else [])"

definition with_columns :: "frame \<Rightarrow> (string \<times> series) list \<Rightarrow> frame" where
  "with_columns f cs = f\<lparr>columns := columns f @ cs\<rparr>"

text \<open>
  The columns both steps add to a table, and the names they may use: the product and the
  ratio name of every pair, whether the ratio is made or not, and the rolling names.
\<close>

definition added_columns_spec :: "frame \<Rightarrow> (string \<times> series) list" where
  "added_columns_spec f =
     interaction_columns_spec f @
     rolling_columns_spec (with_columns f (interaction_columns_spec f))"


text \<open>A column without a missing value.\<close>

definition all_numbers :: "cell list \<Rightarrow> bool" where
  "all_numbers xs = list_all (\<lambda>c. case c of Number x \<Rightarrow> True | _ \<Rightarrow> False) xs"

section \<open>Concrete inputs\<close>

text \<open>A table of four rows with one missing cell; its second row repeats the first.\<close>

definition demo :: frame where
  "demo = \<lparr>nrows = 4, columns =
     [(''a'', \<lparr>dtype = Float64, vals = [Number 1, Number 1, NaN, Number 2]\<rparr>),
      (''b'', \<lparr>dtype = Float64, vals = [Number 5, Number 5, Number 7, Number 8]\<rparr>)]\<rparr>"

text \<open>
  The column \<open>numerical_1\<close> of the profiler's test table, a float column with one
  missing value and nine distinct numbers, and a table holding it.
\<close>

definition numerical_1 :: series where
  "numerical_1 = \<lparr>dtype = Float64,
     vals = [Number 1, Number 2, Number 3, Number 4, Number 5, NaN,
             Number 7, Number 8, Number 9, Number 10]\<rparr>"

definition sample_data :: frame where
  "sample_data = \<lparr>nrows = 10, columns = [(''numerical_1'', numerical_1)]\<rparr>"

text \<open>An operating system that refuses nothing, and an empty file system.\<close>

definition all_ok :: os_model where
  "all_ok = \<lparr>mkdir_ok = (\<lambda>d. True), open_ok = (\<lambda>p. True), pickle_ok = (\<lambda>g. True)\<rparr>"

definition empty_fs :: filesystem where
  "empty_fs = \<lparr>dirs = [], files = (\<lambda>p. None)\<rparr>"

text \<open>Two \<open>add_step\<close> calls: one whose parameters hold a pair, one with counts only.\<close>

definition tuple_call :: "string \<times> string \<times> pyval \<times> string" where
  "tuple_call = (''Feature Engineering'', ''feature_engineering'',
      PyDict [(KStr ''interaction_features'', PyList [PyTuple [PyStr ''a'', PyStr ''b'']])],
      ''2024-01-01T00:00:00'')"

definition native_call :: "string \<times> string \<times> pyval \<times> string" where
  "native_call = (''Data Profiling'', ''data_profiling'',
      PyDict [(KStr ''columns_analyzed'', PyInt 4), (KStr ''rows_analyzed'', PyInt 10)],
      ''2024-01-01T00:00:00'')"

text \<open>
  Libraries that parse no string as a date, place every timestamp on Thursday
  1 January 1970, accept every fit and score every column 0.
\<close>

definition lib0 :: library where
  "lib0 = \<lparr>parse_datetimes = (\<lambda>_. None), cal_year = (\<lambda>_. 1970), cal_month = (\<lambda>_. 1),
     cal_day = (\<lambda>_. 1), cal_dayofweek = (\<lambda>_. 3), cal_quarter = (\<lambda>_. 1),
     fit_ok = (\<lambda>_ _. True), mutual_info = (\<lambda>x y. 0)\<rparr>"

text \<open>The table of the interaction example: \<open>a = [1,2,3]\<close>, \<open>b = [2,0,4]\<close>.\<close>

definition ab :: frame where
  "ab = \<lparr>nrows = 3, columns =
     [(''a'', \<lparr>dtype = Int64, vals = [Number 1, Number 2, Number 3]\<rparr>),
      (''b'', \<lparr>dtype = Int64, vals = [Number 2, Number 0, Number 4]\<rparr>)]\<rparr>"

text \<open>A table with one numeric column and a string column used as the target.\<close>

definition label_col :: series where
  "label_col = \<lparr>dtype = Object, vals = [Str ''p'', Str ''q'']\<rparr>"

definition xl :: frame where
  "xl = \<lparr>nrows = 2, columns =
     [(''x'', \<lparr>dtype = Int64, vals = [Number 1, Number 2]\<rparr>), (''label'', label_col)]\<rparr>"

text \<open>A table with two numeric columns and a string target.\<close>

definition abl :: frame where
  "abl = \<lparr>nrows = 2, columns =
     [(''a'', \<lparr>dtype = Int64, vals = [Number 1, Number 2]\<rparr>),
      (''b'', \<lparr>dtype = Int64, vals = [Number 3, Number 4]\<rparr>),
      (''label'', label_col)]\<rparr>"

text \<open>A table with three numeric columns, the first one the column of the rolling example.\<close>

definition pqr :: frame where
  "pqr = \<lparr>nrows = 4, columns =
     [(''p'', \<lparr>dtype = Int64, vals = [Number 10, Number 20, Number 30, Number 40]\<rparr>),
      (''q'', \<lparr>dtype = Int64, vals = [Number 1, Number 0, Number 2, Number 0]\<rparr>),
      (''r'', \<lparr>dtype = Int64, vals = [Number 0, Number 5, Number 0, Number 5]\<rparr>)]\<rparr>"


section \<open>Properties of the profiler\<close>

lemma isnull_sum_le: "isnull_sum s \<le> length (vals s)"
  by (simp add: isnull_sum_def)

lemma sum_list_bounded:
  "list_all (\<lambda>c. f c \<le> n) cs \<Longrightarrow> sum_list (map f cs) \<le> n * length cs"
  by (induction cs) auto

lemma missing_cells_le:
  assumes "wf_frame df"
  shows "missing_cells df \<le> nrows df * length (columns df)"
proof -
  have "list_all (\<lambda>c. isnull_sum (snd c) \<le> nrows df) (columns df)"
    using assms isnull_sum_le unfolding wf_frame_def list_all_iff
    by (metis (mono_tags, lifting))
  then show ?thesis
    unfolding missing_cells_def by (rule sum_list_bounded)
qed

lemma duplicated_sum_le: "duplicated_sum df \<le> nrows df"
proof -
  have "length (duplicated df) \<le> nrows df"
    by (simp add: duplicated_def)
  moreover have "duplicated_sum df \<le> length (duplicated df)"
    unfolding duplicated_sum_def by (rule length_filter_le)
  ultimately show ?thesis by simp
qed

lemma infer_column_type_total:
  "vals s \<noteq> [] \<Longrightarrow> \<exists>l. infer_column_type parse s = Inr l"
  by (auto simp: infer_column_type_def is_categorical_column_def split: bool.splits)

lemma infer_data_types_total:
  "list_all (\<lambda>c. vals (snd c) \<noteq> []) cs \<Longrightarrow> \<exists>ts. infer_data_types parse cs = Inr ts"
proof (induction cs)
  case Nil
  then show ?case by simp
next
  case (Cons c cs)
  then obtain l ts where "infer_column_type parse (snd c) = Inr l"
    and "infer_data_types parse cs = Inr ts"
    using infer_column_type_total [of "snd c" parse] by auto
  then show ?case by simp
qed

lemma analyze_total:
  assumes "wf_frame data" and "0 < nrows data"
  shows "\<exists>ts. analyze parse data =
           Inr \<lparr>p_overview = get_overview data, p_data_types = ts,
                p_missing_values = analyze_missing_values data,
                p_quality_metrics = calculate_quality_metrics data\<rparr>"
proof -
  have "list_all (\<lambda>c. vals (snd c) \<noteq> []) (columns data)"
    using assms unfolding wf_frame_def list_all_iff by auto
  then obtain ts where "infer_data_types parse (columns data) = Inr ts"
    using infer_data_types_total by blast
  then show ?thesis by (simp add: analyze_def)
qed

lemma completeness_score_value:
  "0 < nrows data * length (columns data) \<Longrightarrow>
   completeness_score (calculate_quality_metrics data) =
     Some (100 * (1 - real (missing_cells data) / real (nrows data * length (columns data))))"
  by (simp add: calculate_quality_metrics_def Let_def np_div_def fl_bin_def)

lemma py_max0_Some: "py_max0 (Some v) = Some (max 0 v)"
  by (simp add: py_max0_def max_def)

lemma overall_quality_score_value:
  assumes "0 < nrows data * length (columns data)"
  shows "overall_quality_score (calculate_quality_metrics data) =
     Some (max 0 (100 * (1 - real (missing_cells data) / real (nrows data * length (columns data)))
                  - 10 * (real (duplicated_sum data) / real (nrows data))))"
proof -
  have n: "nrows data \<noteq> 0" using assms by simp
  have "overall_quality_score (calculate_quality_metrics data) =
     py_max0 (Some (100 * (1 - real (missing_cells data) / real (nrows data * length (columns data)))
                  - real (duplicated_sum data) / real (nrows data) * 10))"
    using assms n by (simp add: calculate_quality_metrics_def Let_def np_div_def fl_bin_def)
  also have "\<dots> = Some (max 0 (100 * (1 - real (missing_cells data) / real (nrows data * length (columns data)))
                  - real (duplicated_sum data) / real (nrows data) * 10))"
    by (rule py_max0_Some)
  also have "real (duplicated_sum data) / real (nrows data) * 10 =
      10 * (real (duplicated_sum data) / real (nrows data))" by simp
  finally show ?thesis .
qed

lemma completeness_bounds:
  assumes "wf_frame data" and "0 < nrows data * length (columns data)"
  shows "0 \<le> 100 * (1 - real (missing_cells data) / real (nrows data * length (columns data)))"
    and "100 * (1 - real (missing_cells data) / real (nrows data * length (columns data))) \<le> 100"
proof -
  let ?t = "nrows data * length (columns data)"
  have "real (missing_cells data) \<le> real ?t"
    using missing_cells_le [OF assms(1)] of_nat_le_iff by blast
  then have "real (missing_cells data) / real ?t \<le> 1"
    using assms(2) by (simp add: divide_le_eq)
  then show "0 \<le> 100 * (1 - real (missing_cells data) / real ?t)" by simp
  have "0 \<le> real (missing_cells data) / real ?t" by simp
  then show "100 * (1 - real (missing_cells data) / real ?t) \<le> 100" by simp
qed

text \<open>
  Claim C7. For a table with \<open>total_cells > 0\<close> (rows times columns), \<open>analyze\<close>
  returns a profile whose completeness score is exactly
  \<open>100 * (1 - missing_cells / total_cells)\<close>, a value between 0 and 100.
\<close>

theorem completeness_score_exact:
  assumes "wf_frame data" and "0 < nrows data * length (columns data)"
  shows "\<exists>p. analyze parse data = Inr p \<and>
           completeness_score (p_quality_metrics p) =
             Some (100 * (1 - real (missing_cells data) /
                              real (nrows data * length (columns data)))) \<and>
           0 \<le> 100 * (1 - real (missing_cells data) /
                             real (nrows data * length (columns data))) \<and>
           100 * (1 - real (missing_cells data) /
                      real (nrows data * length (columns data))) \<le> 100"
proof -
  from assms obtain ts where a: "analyze parse data =
           Inr \<lparr>p_overview = get_overview data, p_data_types = ts,
                p_missing_values = analyze_missing_values data,
                p_quality_metrics = calculate_quality_metrics data\<rparr>"
    using analyze_total [of data parse] by auto
  show ?thesis
    using a completeness_score_value [OF assms(2)] completeness_bounds [OF assms] by simp
qed

text \<open>
  Claim C3. For a table with at least one row and one column, \<open>analyze\<close> returns a
  profile whose overall quality score is
  \<open>max(0, completeness_score - 10 * (duplicate_row_count / row_count))\<close>, a value
  between 0 and 100.
\<close>

theorem overall_quality_score_formula:
  assumes "wf_frame data" and "0 < nrows data" and "columns data \<noteq> []"
  shows "\<exists>p. analyze parse data = Inr p \<and>
           completeness_score (p_quality_metrics p) =
             Some (100 * (1 - real (missing_cells data) /
                              real (nrows data * length (columns data)))) \<and>
           overall_quality_score (p_quality_metrics p) =
             Some (max 0 (100 * (1 - real (missing_cells data) /
                                     real (nrows data * length (columns data)))
                          - 10 * (real (duplicated_sum data) / real (nrows data)))) \<and>
           0 \<le> max 0 (100 * (1 - real (missing_cells data) /
                                   real (nrows data * length (columns data)))
                        - 10 * (real (duplicated_sum data) / real (nrows data))) \<and>
           max 0 (100 * (1 - real (missing_cells data) /
                             real (nrows data * length (columns data)))
                  - 10 * (real (duplicated_sum data) / real (nrows data))) \<le> 100"
proof -
  let ?c = "100 * (1 - real (missing_cells data) / real (nrows data * length (columns data)))"
  let ?pen = "10 * (real (duplicated_sum data) / real (nrows data))"
  have t: "0 < nrows data * length (columns data)" using assms(2,3) by simp
  from assms obtain ts where a: "analyze parse data =
           Inr \<lparr>p_overview = get_overview data, p_data_types = ts,
                p_missing_values = analyze_missing_values data,
                p_quality_metrics = calculate_quality_metrics data\<rparr>"
    using analyze_total [of data parse] by auto
  have "0 \<le> ?pen" by simp
  with completeness_bounds(2) [OF assms(1) t] have "?c - ?pen \<le> 100" by linarith
  then have hi: "max 0 (?c - ?pen) \<le> 100" by simp
  have lo: "0 \<le> max 0 (?c - ?pen)" by simp
  show ?thesis
    using a completeness_score_value [OF t] overall_quality_score_value [OF t] lo hi
    by simp
qed

theorem completeness_score_exact_witness:
  "wf_frame demo \<and> 0 < nrows demo * length (columns demo) \<and>
   (\<exists>p. analyze (\<lambda>_. None) demo = Inr p \<and>
        completeness_score (p_quality_metrics p) = Some (175 / 2))"
  using completeness_score_exact [of demo "\<lambda>_. None"]
  by (auto simp: demo_def wf_frame_def missing_cells_def isnull_sum_def)

theorem overall_quality_score_formula_witness:
  "wf_frame demo \<and> 0 < nrows demo \<and> columns demo \<noteq> [] \<and>
   (\<exists>p. analyze (\<lambda>_. None) demo = Inr p \<and>
        overall_quality_score (p_quality_metrics p) = Some 85)"
  using overall_quality_score_formula [of demo "\<lambda>_. None"]
  by (auto simp: demo_def wf_frame_def missing_cells_def isnull_sum_def duplicated_sum_def
      duplicated_def row_at_def upt_conv_Cons)

subsection \<open>Type inference on a numeric column\<close>

text \<open>
  The rule for a numeric column that the datetime check has let through: fewer than ten
  distinct values give \<open>categorical\<close>, otherwise \<open>numerical\<close>.
\<close>

lemma numeric_label_without_datetime:
  assumes "dtype s = Float64 \<or> dtype s = Int64" and "\<not> is_datetime_column parse s"
  shows "infer_column_type parse s =
           Inr (if nunique s < 10 then ''categorical'' else ''numerical'')"
  using assms by (auto simp: infer_column_type_def is_categorical_column_def is_numeric_dtype_def)

lemma numerical_1_nunique: "nunique numerical_1 = 9"
  by (simp add: numerical_1_def nunique_def)

text \<open>
  The datetime check comes first and accepts every numeric column whose numbers fit a
  timestamp: the conversion it tries reads numbers as nanoseconds since the epoch.
\<close>

lemma numeric_column_is_datetime:
  assumes "dtype s = Float64 \<or> dtype s = Int64" and "list_all fits_timestamp (vals s)"
  shows "infer_column_type parse s = Inr ''datetime''"
  using assms by (auto simp: infer_column_type_def is_datetime_column_def to_datetime_def)

lemma numerical_1_is_datetime: "is_datetime_column parse numerical_1"
  by (simp add: is_datetime_column_def to_datetime_def numerical_1_def fits_timestamp_def
      ns_bound_def)

text \<open>
  Claim C1 says that \<open>analyze\<close> labels the column \<open>[1,2,3,4,5,NaN,7,8,9,10]\<close> as
  categorical, by the rule for numeric columns with fewer than ten distinct values. The
  code labels it \<open>datetime\<close>: the datetime check succeeds on it and the numeric rule is
  never reached.
\<close>

theorem numerical_1_labelled_datetime:
  "analyze parse sample_data =
     Inr \<lparr>p_overview = get_overview sample_data,
          p_data_types = [(''numerical_1'', ''datetime'')],
          p_missing_values = analyze_missing_values sample_data,
          p_quality_metrics = calculate_quality_metrics sample_data\<rparr>"
  by (simp add: analyze_def sample_data_def infer_column_type_def numerical_1_is_datetime)

section \<open>Properties of the pipeline generator\<close>

lemma dict_set_fresh: "k \<notin> fst ` set acc \<Longrightarrow> dict_set k v acc = acc @ [(k, v)]"
  by (induction acc) auto

lemma json_decode_items_fresh:
  "distinct (map fst js) \<Longrightarrow> KStr ` fst ` set js \<inter> fst ` set acc = {} \<Longrightarrow>
   json_decode_items js acc = acc @ decoded js"
proof (induction js arbitrary: acc)
  case Nil
  then show ?case by (simp add: decoded_def)
next
  case (Cons kj js)
  have fresh: "KStr (fst kj) \<notin> fst ` set acc" using Cons.prems(2) by auto
  have d: "distinct (map fst js)" using Cons.prems(1) by simp
  have "KStr ` fst ` set js \<inter> fst ` set (acc @ [(KStr (fst kj), json_decode (snd kj))]) = {}"
    using Cons.prems by auto
  from Cons.IH [OF d this] show ?case
    by (simp add: dict_set_fresh [OF fresh] decoded_def)
qed

lemma json_roundtrip_all:
  "(json_native v \<longrightarrow> (\<exists>j. json_encode v = Some j \<and> json_decode j = v))"
  "(json_native_list xs \<longrightarrow> (\<exists>js. json_encode_list xs = Some js \<and> json_decode_list js = xs))"
  "(json_native_items kvs \<longrightarrow> (\<exists>js. json_encode_items kvs = Some js \<and> decoded js = kvs))"
proof (induction v and xs and kvs rule: json_encode_json_encode_list_json_encode_items.induct)
  case (8 kvs)
  show ?case
  proof
    assume n: "json_native (PyDict kvs)"
    then obtain js where e: "json_encode_items kvs = Some js" and d: "decoded js = kvs"
      using 8 by auto
    have "map fst kvs = map KStr (map fst js)"
      using d by (auto simp: decoded_def)
    then have "distinct (map KStr (map fst js))" using n by (simp del: map_map)
    then have "distinct (map fst js)" by (simp add: distinct_map del: map_map)
    then have "json_decode_items js [] = decoded js"
      using json_decode_items_fresh [of js "[]"] by simp
    with e d show "\<exists>j. json_encode (PyDict kvs) = Some j \<and> json_decode j = PyDict kvs"
      by simp
  qed
next
  case (13 kv kvs)
  show ?case
  proof
    assume n: "json_native_items (kv # kvs)"
    then obtain s where k: "fst kv = KStr s" by (cases "fst kv") auto
    then have jk: "json_key (fst kv) = Some s" by simp
    from n have nv: "json_native (snd kv)" and nk: "json_native_items kvs" by auto
    from 13(1) [OF jk] nv obtain j where ej: "json_encode (snd kv) = Some j"
      and dj: "json_decode j = snd kv" by auto
    from 13(2) [OF jk ej] nk obtain js where ejs: "json_encode_items kvs = Some js"
      and djs: "decoded js = kvs" by auto
    have "json_encode_items (kv # kvs) = Some ((s, j) # js)"
      using jk ej ejs by simp
    moreover have "decoded ((s, j) # js) = kv # kvs"
      using k dj djs by (cases kv) (simp add: decoded_def)
    ultimately show "\<exists>js. json_encode_items (kv # kvs) = Some js \<and> decoded js = kv # kvs"
      by blast
  qed
qed (auto simp: decoded_def)

lemma json_roundtrip:
  "json_native v \<Longrightarrow> \<exists>j. json_encode v = Some j \<and> json_decode j = v"
  using json_roundtrip_all(1) by blast


lemma add_steps_steps:
  "pipeline_steps (add_steps args g) = pipeline_steps g @ map call_step args"
  by (induction args arbitrary: g) (simp_all add: add_step_def call_step_def)

lemma add_steps_metadata: "pipeline_metadata (add_steps args g) = pipeline_metadata g"
  by (induction args arbitrary: g) (simp_all add: add_step_def)

lemma step_dicts_native:
  "list_all (\<lambda>a. json_native (fst (snd (snd a)))) args \<Longrightarrow>
   json_native_list (map step_dict (map call_step args))"
  by (induction args) (simp_all add: step_dict_def call_step_def)

lemma those_steps_step_dicts:
  "those_steps (map step_dict (map call_step args)) = Some (map call_triple args)"
  by (induction args) (simp_all add: step_dict_def call_step_def call_triple_def parsed_step_def)

lemma makedirs_files: "makedirs os d fs = Inr fs1 \<Longrightarrow> files fs1 = files fs"
  by (auto simp: makedirs_def split: if_splits)

text \<open>
  Claim C8, as amended. For a generator made by the constructor and any sequence of
  \<open>add_step\<close> calls whose parameters are JSON-native values, exporting in the JSON
  format (the directory can be created, the file opened) and parsing the file back gives
  the names, functions and parameters of the calls, in the same order and number.
\<close>

theorem json_export_roundtrip_native:
  assumes native: "list_all (\<lambda>a. json_native (fst (snd (snd a)))) args"
    and dir: "makedirs os (dirname filepath) fs = Inr fs1"
    and opn: "open_ok os filepath"
  shows "export_and_parse os generate_python_code now (add_steps args pipeline_init) fs filepath =
           Some (map call_triple args)"
proof -
  let ?g = "add_steps args pipeline_init"
  have steps: "pipeline_steps ?g = map call_step args"
    by (simp add: add_steps_steps pipeline_init_def)
  have meta: "pipeline_metadata ?g = PyDict []"
    by (simp add: add_steps_metadata pipeline_init_def)
  have "json_native (pipeline_data now ?g)"
    using step_dicts_native [OF native] by (simp add: pipeline_data_def steps meta)
  then obtain doc where enc: "json_encode (pipeline_data now ?g) = Some doc"
    and dec: "json_decode doc = pipeline_data now ?g"
    using json_roundtrip by blast
  have saved: "save_pipeline os generate_python_code now ?g fs filepath ''json'' =
      (True, write_file fs1 filepath (Json doc))"
    using dir opn enc by (simp add: save_pipeline_def)
  have "parsed_steps (pipeline_data now ?g) = Some (map call_triple args)"
    by (simp add: parsed_steps_def pipeline_data_def steps those_steps_step_dicts del: map_map)
  with saved dec show ?thesis
    by (simp add: export_and_parse_def write_file_def)
qed

theorem json_export_roundtrip_native_witness:
  "list_all (\<lambda>a. json_native (fst (snd (snd a)))) [native_call] \<and>
   makedirs all_ok (dirname ''out/pipeline.json'') empty_fs = Inr (empty_fs\<lparr>dirs := [''out'']\<rparr>) \<and>
   open_ok all_ok ''out/pipeline.json'' \<and>
   export_and_parse all_ok (\<lambda>g. Inr []) ''2024-01-02T00:00:00'' (add_steps [native_call] pipeline_init)
       empty_fs ''out/pipeline.json'' =
     Some [(PyStr ''Data Profiling'', PyStr ''data_profiling'',
            PyDict [(KStr ''columns_analyzed'', PyInt 4), (KStr ''rows_analyzed'', PyInt 10)])]"
  using json_export_roundtrip_native [of "[native_call]" all_ok "''out/pipeline.json''" empty_fs
      "empty_fs\<lparr>dirs := [''out'']\<rparr>" "\<lambda>g. Inr []" "''2024-01-02T00:00:00''"]
  by (simp add: native_call_def all_ok_def empty_fs_def makedirs_def dirname_def call_triple_def)

text \<open>
  Claim C8 as stated fails when a parameter holds a tuple: the export succeeds, and the
  pair \<open>('a', 'b')\<close> comes back as the list \<open>['a', 'b']\<close>.
\<close>

theorem json_export_tuple_counterexample:
  "export_and_parse all_ok (\<lambda>g. Inr []) ''2024-01-02T00:00:00'' (add_steps [tuple_call] pipeline_init)
       empty_fs ''out/pipeline.json'' =
     Some [(PyStr ''Feature Engineering'', PyStr ''feature_engineering'',
            PyDict [(KStr ''interaction_features'', PyList [PyList [PyStr ''a'', PyStr ''b'']])])] \<and>
   export_and_parse all_ok (\<lambda>g. Inr []) ''2024-01-02T00:00:00'' (add_steps [tuple_call] pipeline_init)
       empty_fs ''out/pipeline.json'' \<noteq> Some (map call_triple [tuple_call])"
  by (simp add: export_and_parse_def save_pipeline_def tuple_call_def all_ok_def empty_fs_def
      makedirs_def dirname_def call_triple_def pipeline_init_def add_step_def pipeline_data_def
      step_dict_def write_file_def parsed_steps_def parsed_step_def)

text \<open>
  Claim C10. With a format other than \<open>python\<close>, \<open>json\<close> and \<open>pickle\<close>, and a
  target directory that can be created, \<open>save_pipeline\<close> returns True and writes no file:
  the files are those that were there before.
\<close>

theorem unknown_format_reports_success:
  assumes "format \<noteq> ''python''" and "format \<noteq> ''json''" and "format \<noteq> ''pickle''"
    and "makedirs os (dirname filepath) fs = Inr fs1"
  shows "save_pipeline os generate_python_code now g fs filepath format = (True, fs1) \<and>
         files fs1 = files fs"
  using assms by (simp add: save_pipeline_def makedirs_files)

theorem unknown_format_reports_success_witness:
  "''yaml'' \<noteq> ''python'' \<and> ''yaml'' \<noteq> ''json'' \<and> ''yaml'' \<noteq> ''pickle'' \<and>
   makedirs all_ok (dirname ''out/pipeline.yaml'') empty_fs = Inr (empty_fs\<lparr>dirs := [''out'']\<rparr>) \<and>
   save_pipeline all_ok (\<lambda>g. Inr []) ''2024-01-02T00:00:00'' pipeline_init empty_fs
       ''out/pipeline.yaml'' ''yaml'' = (True, empty_fs\<lparr>dirs := [''out'']\<rparr>) \<and>
   files (empty_fs\<lparr>dirs := [''out'']\<rparr>) ''out/pipeline.yaml'' = None"
  using unknown_format_reports_success [of "''yaml''" all_ok "''out/pipeline.yaml''" empty_fs
      "empty_fs\<lparr>dirs := [''out'']\<rparr>" "\<lambda>g. Inr []" "''2024-01-02T00:00:00''" pipeline_init]
  by (simp add: all_ok_def empty_fs_def makedirs_def dirname_def)

section \<open>Properties of the feature engineer\<close>

subsection \<open>The store\<close>

lemma take_update_beyond: "length h \<le> i \<Longrightarrow> take (length h) ((h @ xs)[i := f]) = h"
  by simp

lemma create_temporal_features_store:
  assumes "create_temporal_features lib data (eng, h) = (e, eng', h')"
  shows "e = length h \<and> length h' = Suc (length h) \<and> take (length h) h' = h \<and>
         max_features eng' = max_features eng \<and> selected_features eng' = selected_features eng"
  using assms
  by (auto simp: create_temporal_features_def df_copy_def Let_def split: prod.splits)

lemma create_interaction_features_store:
  assumes "create_interaction_features data (eng, h) = (r, eng', h')"
  shows "length h' = Suc (length h) \<and> take (length h) h' = h \<and>
         (case r of Inl e \<Rightarrow> True | Inr a \<Rightarrow> a = length h)"
  using assms
  by (auto simp: create_interaction_features_def df_copy_def Let_def split: prod.splits sum.splits)

lemma create_statistical_features_store:
  assumes "create_statistical_features data (eng, h) = (r, eng', h')"
  shows "length h' = Suc (length h) \<and> take (length h) h' = h \<and>
         (case r of Inl e \<Rightarrow> True | Inr a \<Rightarrow> a = length h)"
  using assms
  by (auto simp: create_statistical_features_def df_copy_def Let_def split: prod.splits sum.splits if_splits)

lemma select_features_store:
  assumes "select_features lib data t (eng, h) = (r, eng', h')"
  shows "length h \<le> length h' \<and> take (length h) h' = h \<and>
         (case r of Inl e \<Rightarrow> True | Inr a \<Rightarrow> a = data \<or> (a = length h \<and> a < length h'))"
  using assms
  by (auto simp: select_features_def Let_def split: prod.splits sum.splits if_splits)

lemma take_take_store:
  assumes "take (length h) h1 = h" and "take (length h1) h2 = h1"
  shows "take (length h) h2 = h"
proof -
  have "min (length h1) (length h) = length h" using assms(1) by (metis length_take)
  then have "length h \<le> length h1" by simp
  then have "take (length h) h2 = take (length h) (take (length h1) h2)" by (simp add: min_def)
  then show ?thesis using assms by simp
qed

text \<open>
  Claim C9. \<open>create_features\<close> never changes its input table in place: whatever the
  target, and whether the call returns or raises, the table at the input address (and
  every other table that existed before the call) holds the same columns and cells
  afterwards, and the table returned is a new one.
\<close>

theorem create_features_keeps_input:
  assumes call: "create_features lib data target_column (eng, h) = (r, eng', h')"
    and valid: "data < length h"
  shows "h' ! data = h ! data \<and> take (length h) h' = h \<and>
         (case r of Inl e \<Rightarrow> True | Inr a \<Rightarrow> length h \<le> a \<and> a < length h')"
proof -
  obtain e0 h0 where c0: "df_copy data h = (e0, h0)" by (cases "df_copy data h")
  then have h0: "h0 = h @ [h ! data]" and e0: "e0 = length h" by (auto simp: df_copy_def)
  obtain e1 eng1 h1 where c1: "create_temporal_features lib e0 (eng, h0) = (e1, eng1, h1)"
    by (cases "create_temporal_features lib e0 (eng, h0)")
  note s1 = create_temporal_features_store [OF c1]
  obtain r2 eng2 h2 where c2: "create_interaction_features e1 (eng1, h1) = (r2, eng2, h2)"
    by (cases "create_interaction_features e1 (eng1, h1)")
  note s2 = create_interaction_features_store [OF c2]
  have t0: "take (length h) h0 = h" using h0 by simp
  have t1: "take (length h) h1 = h" using take_take_store [OF t0] s1 by simp
  have t2: "take (length h) h2 = h" using take_take_store [OF t1] s2 by simp
  have l2: "length h2 = length h + 3" using s1 s2 h0 by simp
  have goal: "take (length h) h' = h \<and>
         (case r of Inl e \<Rightarrow> True | Inr a \<Rightarrow> length h \<le> a \<and> a < length h')"
  proof (cases r2)
    case (Inl e)
    then have "r = Inl e" "h' = h2" using call c0 c1 c2 by (simp_all add: create_features_def)
    then show ?thesis using t2 by simp
  next
    case (Inr e2)
    then have e2: "e2 = length h1" using s2 by simp
    obtain r3 eng3 h3 where c3: "create_statistical_features e2 (eng2, h2) = (r3, eng3, h3)"
      by (cases "create_statistical_features e2 (eng2, h2)")
    note s3 = create_statistical_features_store [OF c3]
    have t3: "take (length h) h3 = h" using take_take_store [OF t2] s3 by simp
    have l3: "length h3 = length h + 4" using s3 l2 by simp
    show ?thesis
    proof (cases r3)
      case (Inl e)
      then have "r = Inl e" "h' = h3" using call c0 c1 c2 c3 Inr by (simp_all add: create_features_def)
      then show ?thesis using t3 by simp
    next
      case r3: (Inr e3)
      then have e3: "e3 = length h2" using s3 by simp
      show ?thesis
      proof (cases "\<exists>t. target_column = Some t \<and> t \<noteq> [] \<and> t \<in> set (column_names (h3 ! e3))")
        case True
        then obtain t where t: "target_column = Some t" "t \<noteq> []" "t \<in> set (column_names (h3 ! e3))"
          by blast
        then have sel: "select_features lib e3 t (eng3, h3) = (r, eng', h')"
          using call c0 c1 c2 c3 Inr r3 by (simp add: create_features_def)
        note s4 = select_features_store [OF sel]
        have "take (length h) h' = h" using take_take_store [OF t3] s4 by simp
        moreover have "case r of Inl e \<Rightarrow> True | Inr a \<Rightarrow> length h \<le> a \<and> a < length h'"
          using s4 e3 l2 l3 by (auto split: sum.splits)
        ultimately show ?thesis by simp
      next
        case False
        then have "r = Inr e3" "h' = h3"
          using call c0 c1 c2 c3 Inr r3 by (auto simp: create_features_def split: option.splits)
        then show ?thesis using t3 e3 l2 l3 by simp
      qed
    qed
  qed
  have "h' ! data = take (length h) h' ! data" using valid by simp
  with goal show ?thesis by simp
qed

theorem create_features_keeps_input_witness:
  "0 < length [ab] \<and>
   snd (snd (create_features lib0 0 None (engineer_init 50, [ab]))) ! 0 = ab \<and>
   take (length [ab]) (snd (snd (create_features lib0 0 None (engineer_init 50, [ab])))) = [ab]"
  using create_features_keeps_input [of lib0 0 None "engineer_init 50" "[ab]"
      "fst (create_features lib0 0 None (engineer_init 50, [ab]))"
      "fst (snd (create_features lib0 0 None (engineer_init 50, [ab])))"
      "snd (snd (create_features lib0 0 None (engineer_init 50, [ab])))"]
  by simp

subsection \<open>The recorded names\<close>

text \<open>Each loop appends to the list of names it is given.\<close>

lemma temporal_loop_created:
  "temporal_loop lib cols (f, cr @ cr') =
     (fst (temporal_loop lib cols (f, cr')), cr @ snd (temporal_loop lib cols (f, cr')))"
proof (induction cols arbitrary: f cr')
  case Nil
  then show ?case by simp
next
  case (Cons col cols)
  show ?case
    using Cons.IH [of f cr'] Cons.IH [where cr' = "cr' @ [col @ ''_year'', col @ ''_month'', col @ ''_day'',
                             col @ ''_dayofweek'', col @ ''_quarter'']"]
    by (simp split: sum.splits option.splits)
qed

lemma interaction_loop_created:
  "interaction_loop ps (f, cr @ cr') =
     (case interaction_loop ps (f, cr') of
        Inl e \<Rightarrow> Inl e
      | Inr r \<Rightarrow> Inr (fst r, cr @ snd r))"
proof (induction ps arbitrary: f cr')
  case Nil
  then show ?case by simp
next
  case (Cons p ps)
  show ?case
    using Cons.IH [where cr' = "cr' @ [mul_name (fst p) (snd p), div_name (fst p) (snd p)]"]
      Cons.IH [where cr' = "cr' @ [mul_name (fst p) (snd p)]"]
    by (simp split: sum.splits)
qed

lemma statistical_loop_created:
  "statistical_loop cols (f, cr @ cr') =
     (case statistical_loop cols (f, cr') of
        Inl e \<Rightarrow> Inl e
      | Inr r \<Rightarrow> Inr (fst r, cr @ snd r))"
proof (induction cols arbitrary: f cr')
  case Nil
  then show ?case by simp
next
  case (Cons col cols)
  show ?case
    using Cons.IH [where cr' = "cr' @ [col @ ''_rolling_mean'', col @ ''_rolling_std'']"]
    by (simp split: sum.splits)
qed

subsection \<open>A call in terms of the engineered table\<close>

lemma nth_append_length_plus: "(h @ xs) ! (length h + n) = xs ! n"
  by (simp add: nth_append)

lemma update_last: "length h1 = n \<Longrightarrow> (h1 @ [x])[n := y] = h1 @ [y]"
  by (simp add: list_update_append)

lemma temporal_step:
  assumes "temporal_loop lib (filter is_temporal_name (column_names f)) (f, []) = (f1, c1)"
  shows "create_temporal_features lib (length h) (eng, h @ [f]) =
           (Suc (length h), eng\<lparr>created_features := created_features eng @ c1\<rparr>, h @ [f, f1])"
proof -
  have "temporal_loop lib (filter is_temporal_name (column_names f)) (f, created_features eng @ []) =
          (f1, created_features eng @ c1)"
    unfolding temporal_loop_created using assms by simp
  moreover have "((h @ [f]) @ [f])[Suc (length h) := f1] = (h @ [f]) @ [f1]"
    by (rule update_last) simp
  ultimately show ?thesis
    by (simp add: create_temporal_features_def df_copy_def Let_def nth_append)
qed

lemma interaction_step:
  assumes "interaction_loop (pairs_of (first_five (numerical_cols f1))) (f1, c1) = Inr (f2, c2)"
    and "length h1 = Suc n" and "h1 ! n = f1"
  shows "create_interaction_features n (eng\<lparr>created_features := cr @ c1\<rparr>, h1) =
           (Inr (Suc n), eng\<lparr>created_features := cr @ c2\<rparr>, h1 @ [f2])"
proof -
  have "interaction_loop (pairs_of (first_five (numerical_cols f1))) (f1, cr @ c1) = Inr (f2, cr @ c2)"
    unfolding interaction_loop_created using assms(1) by simp
  then show ?thesis
    using assms(2,3)
    by (simp add: create_interaction_features_def df_copy_def Let_def nth_append update_last)
qed

lemma statistical_step:
  assumes "(if length (numerical_cols f2) \<ge> 3
            then statistical_loop (take 3 (numerical_cols f2)) (f2, c2)
            else Inr (f2, c2)) = Inr (E, names)"
    and "length h2 = Suc n" and "h2 ! n = f2"
  shows "create_statistical_features n (eng\<lparr>created_features := cr @ c2\<rparr>, h2) =
           (Inr (Suc n), eng\<lparr>created_features := cr @ names\<rparr>, h2 @ [E])"
proof (cases "length (numerical_cols f2) \<ge> 3")
  case True
  then have "statistical_loop (take 3 (numerical_cols f2)) (f2, c2) = Inr (E, names)"
    using assms(1) by simp
  then have "statistical_loop (take 3 (numerical_cols f2)) (f2, cr @ c2) = Inr (E, cr @ names)"
    unfolding statistical_loop_created by simp
  then show ?thesis
    using assms(2,3) True
    by (simp add: create_statistical_features_def df_copy_def Let_def nth_append update_last)
next
  case False
  then have "E = f2" "names = c2" using assms(1) by simp_all
  then show ?thesis
    using assms(2,3) False
    by (simp add: create_statistical_features_def df_copy_def Let_def nth_append list_update_append)
qed

lemma create_features_engineered:
  assumes "engineer_frame lib (h ! data) = Inr (E, names)"
  shows "\<exists>f1 f2. create_features lib data target_column (eng, h) =
           (case target_column of
              None \<Rightarrow>
                (Inr (length h + 3), eng\<lparr>created_features := created_features eng @ names\<rparr>,
                 h @ [h ! data, f1, f2, E])
            | Some t \<Rightarrow>
                if t \<noteq> [] \<and> t \<in> set (column_names E)
                then select_features lib (length h + 3) t
                       (eng\<lparr>created_features := created_features eng @ names\<rparr>,
                        h @ [h ! data, f1, f2, E])
                else (Inr (length h + 3), eng\<lparr>created_features := created_features eng @ names\<rparr>,
                      h @ [h ! data, f1, f2, E]))"
proof -
  let ?f = "h ! data"
  obtain f1 c1 where T: "temporal_loop lib (filter is_temporal_name (column_names ?f)) (?f, []) = (f1, c1)"
    by (cases "temporal_loop lib (filter is_temporal_name (column_names ?f)) (?f, [])")
  obtain f2 c2 where I: "interaction_loop (pairs_of (first_five (numerical_cols f1))) (f1, c1) = Inr (f2, c2)"
    and S: "(if length (numerical_cols f2) \<ge> 3
            then statistical_loop (take 3 (numerical_cols f2)) (f2, c2)
            else Inr (f2, c2)) = Inr (E, names)"
    using assms T by (auto simp: engineer_frame_def split: sum.splits)
  have t: "create_temporal_features lib (length h) (eng, h @ [?f]) =
           (Suc (length h), eng\<lparr>created_features := created_features eng @ c1\<rparr>, h @ [?f, f1])"
    by (rule temporal_step [OF T])
  have i: "create_interaction_features (Suc (length h))
             (eng\<lparr>created_features := created_features eng @ c1\<rparr>, h @ [?f, f1]) =
           (Inr (Suc (Suc (length h))), eng\<lparr>created_features := created_features eng @ c2\<rparr>,
            (h @ [?f, f1]) @ [f2])"
    by (rule interaction_step [OF I]) (simp_all add: nth_append)
  have s: "create_statistical_features (Suc (Suc (length h)))
             (eng\<lparr>created_features := created_features eng @ c2\<rparr>, h @ [?f, f1, f2]) =
           (Inr (Suc (Suc (Suc (length h)))), eng\<lparr>created_features := created_features eng @ names\<rparr>,
            (h @ [?f, f1, f2]) @ [E])"
    by (rule statistical_step [OF S]) (simp_all add: nth_append)
  have e3: "(h @ [?f, f1, f2, E]) ! Suc (Suc (Suc (length h))) = E"
    by (simp add: nth_append)
  have n3: "length h + 3 = Suc (Suc (Suc (length h)))" by simp
  have "create_features lib data target_column (eng, h) =
           (case target_column of
              None \<Rightarrow>
                (Inr (length h + 3), eng\<lparr>created_features := created_features eng @ names\<rparr>,
                 h @ [h ! data, f1, f2, E])
            | Some t \<Rightarrow>
                if t \<noteq> [] \<and> t \<in> set (column_names E)
                then select_features lib (length h + 3) t
                       (eng\<lparr>created_features := created_features eng @ names\<rparr>,
                        h @ [h ! data, f1, f2, E])
                else (Inr (length h + 3), eng\<lparr>created_features := created_features eng @ names\<rparr>,
                      h @ [h ! data, f1, f2, E]))"
    unfolding n3 using t i s e3 by (simp add: create_features_def df_copy_def split: option.splits)
  then show ?thesis by blast
qed

lemma create_features_returns_engineered:
  assumes "create_features lib data target_column (eng, h) = (Inr r, eng', h')"
  shows "\<exists>E names. engineer_frame lib (h ! data) = Inr (E, names)"
proof (cases "engineer_frame lib (h ! data)")
  case (Inr a)
  then show ?thesis by (cases a) simp
next
  case (Inl e)
  let ?f = "h ! data"
  obtain f1 c1 where T: "temporal_loop lib (filter is_temporal_name (column_names ?f)) (?f, []) = (f1, c1)"
    by (cases "temporal_loop lib (filter is_temporal_name (column_names ?f)) (?f, [])")
  have t: "create_temporal_features lib (length h) (eng, h @ [?f]) =
           (Suc (length h), eng\<lparr>created_features := created_features eng @ c1\<rparr>, h @ [?f, f1])"
    by (rule temporal_step [OF T])
  show ?thesis
  proof (cases "interaction_loop (pairs_of (first_five (numerical_cols f1))) (f1, c1)")
    case I: (Inl e1)
    then have "interaction_loop (pairs_of (first_five (numerical_cols f1)))
                 (f1, created_features eng @ c1) = Inl e1"
      unfolding interaction_loop_created by simp
    then have "fst (create_features lib data target_column (eng, h)) = Inl e1"
      using t by (simp add: create_features_def df_copy_def create_interaction_features_def
          Let_def nth_append)
    then show ?thesis using assms by simp
  next
    case I: (Inr a)
    obtain f2 c2 where a: "a = (f2, c2)" by (cases a)
    have i: "create_interaction_features (Suc (length h))
             (eng\<lparr>created_features := created_features eng @ c1\<rparr>, h @ [?f, f1]) =
           (Inr (Suc (Suc (length h))), eng\<lparr>created_features := created_features eng @ c2\<rparr>,
            (h @ [?f, f1]) @ [f2])"
      by (rule interaction_step) (use I a in \<open>simp_all add: nth_append\<close>)
    have S: "length (numerical_cols f2) \<ge> 3"
      and S': "statistical_loop (take 3 (numerical_cols f2)) (f2, c2) = Inl e"
      using Inl T I a by (auto simp: engineer_frame_def split: if_splits)
    have "statistical_loop (take 3 (numerical_cols f2)) (f2, created_features eng @ c2) = Inl e"
      unfolding statistical_loop_created using S' by simp
    then have "fst (create_features lib data target_column (eng, h)) = Inl e"
      using t i S by (simp add: create_features_def df_copy_def create_statistical_features_def
          Let_def nth_append)
    then show ?thesis using assms by simp
  qed
qed

subsection \<open>Feature selection\<close>

lemma masked_map: "masked (map f xs) m = map f (masked xs m)"
proof -
  have "zip (map f xs) m = map (\<lambda>p. (f (fst p), snd p)) (zip xs m)"
    by (simp add: zip_map1 case_prod_unfold)
  then show ?thesis
    by (simp add: masked_def filter_map comp_def)
qed

lemma set_masked: "set (masked xs m) \<subseteq> set xs"
  by (auto simp: masked_def dest: set_zip_leftD)

lemma length_masked_upt:
  assumes "length xs = n"
  shows "length (masked xs (map P [0..<n])) = length (filter P [0..<n])"
proof -
  have "zip xs (map P [0..<n]) = map (\<lambda>i. (xs ! i, P i)) [0..<n]"
    using assms by (intro nth_equalityI) simp_all
  then show ?thesis
    by (simp add: masked_def filter_map comp_def)
qed

lemma length_get_support:
  "length (filter (\<lambda>b. b) (get_support k scores)) \<le> k"
proof -
  let ?top = "drop (length scores - k) (argsort scores)"
  have "length (filter (\<lambda>b. b) (get_support k scores)) =
          length (filter (\<lambda>i. i \<in> set ?top) [0..<length scores])"
    by (simp add: get_support_def Let_def filter_map comp_def)
  also have "\<dots> = card ({i. i \<in> set ?top} \<inter> set [0..<length scores])"
    by (rule distinct_length_filter) simp
  also have "\<dots> \<le> card (set ?top)"
    by (intro card_mono) auto
  also have "\<dots> \<le> length ?top" by (rule card_length)
  also have "\<dots> \<le> k" by (simp add: argsort_def)
  finally show ?thesis .
qed

lemma length_masked_get_support:
  assumes "length xs = length scores"
  shows "length (masked xs (get_support k scores)) \<le> k"
proof -
  let ?top = "drop (length scores - k) (argsort scores)"
  have "length (masked xs (get_support k scores)) =
          length (filter (\<lambda>i. i \<in> set ?top) [0..<length scores])"
    unfolding get_support_def Let_def by (rule length_masked_upt [OF assms])
  also have "\<dots> = card ({i. i \<in> set ?top} \<inter> set [0..<length scores])"
    by (rule distinct_length_filter) simp
  also have "\<dots> \<le> card (set ?top)"
    by (intro card_mono) auto
  also have "\<dots> \<le> length ?top" by (rule card_length)
  also have "\<dots> \<le> k" by (simp add: argsort_def)
  finally show ?thesis .
qed

lemma take_columns_present:
  assumes "list_all (\<lambda>c. getitem X (fst c) = Inr (snd c)) cs"
  shows "take_columns X (map fst cs) = Inr cs"
  using assms by (induction cs) auto

lemma getitem_member:
  assumes "distinct (map fst (columns X))" and "c \<in> set (columns X)"
  shows "getitem X (fst c) = Inr (snd c)"
  using assms by (cases c) (simp add: getitem_def)

lemma set_column_fresh:
  "name \<notin> fst ` set cs \<Longrightarrow> set_column name s cs = cs @ [(name, s)]"
  by (induction cs) auto

subsection \<open>Column names stay distinct\<close>

lemma set_column_names:
  "map fst (set_column name s cs) =
     (if name \<in> fst ` set cs then map fst cs else map fst cs @ [name])"
  by (induction cs) auto

lemma setitem_names:
  "column_names (setitem name s f) =
     (if name \<in> set (column_names f) then column_names f else column_names f @ [name])"
  by (simp add: setitem_def column_names_def set_column_names)

lemma setitem_distinct:
  "distinct (column_names f) \<Longrightarrow> distinct (column_names (setitem name s f))"
  by (simp add: setitem_names)


lemma getitem_present:
  "name \<in> set (column_names f) \<Longrightarrow> \<exists>s. getitem f name = Inr s"
  by (auto simp: getitem_def column_names_def map_of_eq_None_iff split: option.splits)

lemma temporal_loop_distinct:
  "distinct (column_names f) \<Longrightarrow> distinct (column_names (fst (temporal_loop lib cols (f, cr))))"
proof (induction cols arbitrary: f cr)
  case Nil
  then show ?case by simp
next
  case (Cons col cols)
  show ?case
    using Cons.prems
    by (auto split: sum.splits option.splits intro!: Cons.IH setitem_distinct)
qed

lemma interaction_loop_distinct:
  "distinct (column_names f) \<Longrightarrow> interaction_loop ps (f, cr) = Inr (f', cr') \<Longrightarrow>
   distinct (column_names f')"
proof (induction ps arbitrary: f cr)
  case Nil
  then show ?case by simp
next
  case (Cons p ps)
  from Cons.prems(2) show ?case
    by (auto split: sum.splits if_splits
        intro: Cons.IH [rotated] setitem_distinct [OF setitem_distinct [OF Cons.prems(1)]]
               setitem_distinct [OF Cons.prems(1)])
qed

lemma statistical_loop_distinct:
  "distinct (column_names f) \<Longrightarrow> statistical_loop cols (f, cr) = Inr (f', cr') \<Longrightarrow>
   distinct (column_names f')"
proof (induction cols arbitrary: f cr)
  case Nil
  then show ?case by simp
next
  case (Cons col cols)
  from Cons.prems(2) show ?case
    by (auto split: sum.splits
        intro: Cons.IH [rotated] setitem_distinct [OF setitem_distinct [OF Cons.prems(1)]])
qed

lemma engineer_frame_distinct:
  assumes "distinct (column_names f)" and "engineer_frame lib f = Inr (E, names)"
  shows "distinct (column_names E)"
proof -
  obtain f1 c1 where T: "temporal_loop lib (filter is_temporal_name (column_names f)) (f, []) = (f1, c1)"
    by (cases "temporal_loop lib (filter is_temporal_name (column_names f)) (f, [])")
  then have d1: "distinct (column_names f1)"
    using temporal_loop_distinct [OF assms(1), of lib "filter is_temporal_name (column_names f)" "[]"]
    by simp
  obtain f2 c2 where I: "interaction_loop (pairs_of (first_five (numerical_cols f1))) (f1, c1) = Inr (f2, c2)"
    and S: "(if length (numerical_cols f2) \<ge> 3
            then statistical_loop (take 3 (numerical_cols f2)) (f2, c2)
            else Inr (f2, c2)) = Inr (E, names)"
    using assms(2) T by (auto simp: engineer_frame_def split: sum.splits)
  have d2: "distinct (column_names f2)" by (rule interaction_loop_distinct [OF d1 I])
  show ?thesis
    using S d2 statistical_loop_distinct [OF d2] by (auto split: if_splits)
qed

lemma predictors_not_target: "c \<in> set (predictors E t) \<Longrightarrow> fst c \<noteq> t"
  by (simp add: predictors_def select_number_def)

lemma predictors_member: "c \<in> set (predictors E t) \<Longrightarrow> c \<in> set (columns E)"
  by (simp add: predictors_def select_number_def)

lemma predictors_filtered:
  "c \<in> set (predictors E t) \<Longrightarrow> c \<in> set (filter (\<lambda>c. fst c \<noteq> t) (columns E))"
  by (simp add: predictors_def select_number_def)

lemma masked_member: "c \<in> set (masked xs m) \<Longrightarrow> c \<in> set xs"
  by (rule subsetD [OF set_masked])

lemma target_not_masked: "t \<notin> fst ` set (masked (predictors E t) m)"
proof
  assume "t \<in> fst ` set (masked (predictors E t) m)"
  then obtain c where c: "c \<in> set (masked (predictors E t) m)" and e: "fst c = t"
    by (elim imageE) simp
  from c have "c \<in> set (predictors E t)" by (rule masked_member)
  then have "fst c \<noteq> t" by (rule predictors_not_target)
  with e show False by simp
qed

lemma setitem_fresh:
  "t \<notin> fst ` set cs \<Longrightarrow> setitem t y (X\<lparr>columns := cs\<rparr>) = X\<lparr>columns := cs @ [(t, y)]\<rparr>"
  by (simp add: setitem_def set_column_fresh)

lemma take_columns_masked:
  assumes d: "distinct (column_names E)"
  shows "take_columns (E\<lparr>columns := filter (\<lambda>c. fst c \<noteq> t) (columns E)\<rparr>)
           (masked (map fst (predictors E t)) m) = Inr (masked (predictors E t) m)"
proof -
  let ?X = "E\<lparr>columns := filter (\<lambda>c. fst c \<noteq> t) (columns E)\<rparr>"
  have dX: "distinct (map fst (columns ?X))"
    using d by (simp add: column_names_def distinct_map_filter)
  have mem: "getitem ?X (fst c) = Inr (snd c)" if "c \<in> set (masked (predictors E t) m)" for c
  proof -
    from that have "c \<in> set (predictors E t)" by (rule masked_member)
    then have "c \<in> set (columns ?X)" using predictors_filtered by simp
    then show ?thesis by (rule getitem_member [OF dX])
  qed
  have "list_all (\<lambda>c. getitem ?X (fst c) = Inr (snd c)) (masked (predictors E t) m)"
    unfolding list_all_iff by (rule ballI) (rule mem)
  then have "take_columns ?X (map fst (masked (predictors E t) m)) = Inr (masked (predictors E t) m)"
    by (rule take_columns_present)
  then show ?thesis by (simp only: masked_map)
qed

lemma min_length_negative: "min (mf::int) (int n) < 0 \<longleftrightarrow> mf < 0"
  by (simp add: min_less_iff_disj)

lemma select_features_skip:
  assumes "h ! e = E" and "getitem E t = Inr y" and "predictors E t = []"
  shows "select_features lib e t (eng, h) = (Inr e, eng, h)"
  using assms by (simp add: select_features_def Let_def predictors_def)


lemma select_features_refused:
  assumes "h ! e = E" and "getitem E t = Inr y" and "predictors E t \<noteq> []"
    and "\<not> min (max_features eng) (int (length (predictors E t))) < 0"
    and "contains_nan (predictors E t) \<or> \<not> fit_ok lib (predictors E t) y"
  shows "select_features lib e t (eng, h) = (Inl ValueError, eng, h)"
  using assms unfolding min_length_negative
  by (simp add: select_features_def Let_def predictors_def min_length_negative)

lemma select_features_selects:
  assumes E: "h ! e = E" and y: "getitem E t = Inr y" and d: "distinct (column_names E)"
    and ne: "predictors E t \<noteq> []"
    and k: "\<not> min (max_features eng) (int (length (predictors E t))) < 0"
    and ok: "\<not> contains_nan (predictors E t) \<and> fit_ok lib (predictors E t) y"
  shows "select_features lib e t (eng, h) =
      (Inr (length h),
       eng\<lparr>selected_features := chosen lib (max_features eng) E t,
           feature_importance :=
             fold (\<lambda>fs. set_score (fst fs) (snd fs))
                  (zip (map fst (predictors E t))
                       (map (\<lambda>c. mutual_info lib (snd c) y) (predictors E t)))
                  (feature_importance eng)\<rparr>,
       h @ [E\<lparr>columns :=
              masked (predictors E t)
                (get_support (nat (min (max_features eng) (int (length (predictors E t)))))
                   (map (\<lambda>c. mutual_info lib (snd c) y) (predictors E t)))
              @ [(t, y)]\<rparr>])"
proof -
  let ?m = "get_support (nat (min (max_features eng) (int (length (predictors E t)))))
              (map (\<lambda>c. mutual_info lib (snd c) y) (predictors E t))"
  have tc: "take_columns (E\<lparr>columns := filter (\<lambda>c. fst c \<noteq> t) (columns E)\<rparr>)
           (masked (map fst (predictors E t)) ?m) = Inr (masked (predictors E t) ?m)"
    by (rule take_columns_masked [OF d])
  have si: "setitem t y (E\<lparr>columns := masked (predictors E t) ?m\<rparr>) =
      E\<lparr>columns := masked (predictors E t) ?m @ [(t, y)]\<rparr>"
    by (rule setitem_fresh [OF target_not_masked])
  have ch: "chosen lib (max_features eng) E t = masked (map fst (predictors E t)) ?m"
    using y by (simp add: chosen_def)
  have p: "select_number (filter (\<lambda>c. fst c \<noteq> t) (columns E)) = predictors E t"
    by (simp add: predictors_def)
  have k': "\<not> max_features eng < 0" using k unfolding min_length_negative .
  show ?thesis
    unfolding select_features_def Let_def
    using E y ne k' ok by (simp add: p tc si ch min_length_negative)
qed

lemma getitem_names: "getitem E t = Inr y \<Longrightarrow> t \<in> set (column_names E)"
  by (auto simp: getitem_def column_names_def split: option.splits dest: map_of_SomeD
      intro: rev_image_eqI)

lemma getitem_column: "getitem E t = Inr y \<Longrightarrow> (t, y) \<in> set (columns E)"
  by (auto simp: getitem_def split: option.splits dest: map_of_SomeD)

lemma chosen_length:
  assumes "getitem E t = Inr y" and "0 \<le> mf"
  shows "int (length (chosen lib mf E t)) \<le> min mf (int (length (predictors E t)))"
proof -
  let ?k = "nat (min mf (int (length (predictors E t))))"
  let ?scores = "map (\<lambda>c. mutual_info lib (snd c) y) (predictors E t)"
  have "length (masked (map fst (predictors E t)) (get_support ?k ?scores)) \<le> ?k"
    by (rule length_masked_get_support) simp
  then have "length (chosen lib mf E t) \<le> ?k"
    using assms(1) by (simp add: chosen_def)
  then have "int (length (chosen lib mf E t)) \<le> int ?k" by (simp only: of_nat_le_iff)
  also have "int ?k = min mf (int (length (predictors E t)))" using assms(2) by simp
  finally show ?thesis .
qed

lemma chosen_subset:
  "set (chosen lib mf E t) \<subseteq> fst ` set (predictors E t)"
proof (cases "getitem E t")
  case (Inl e)
  then show ?thesis by (simp add: chosen_def)
next
  case (Inr y)
  have "set (masked (map fst (predictors E t)) m) \<subseteq> set (map fst (predictors E t))" for m
    by (rule set_masked)
  then show ?thesis using Inr by (simp add: chosen_def)
qed

text \<open>
  What a call with a usable target returns when the selector accepts the predictors.
  Let \<open>E\<close> be the engineered table and the predictors its numeric columns other than
  the target. With no predictor the call returns \<open>E\<close> itself and selects nothing.
  Otherwise, when no predictor holds a missing value, the rest of the validation passes
  and \<open>max_features\<close> is not negative, the call returns, it selects at most
  \<open>min(max_features, number of predictors)\<close> columns, all of them predictors, and the
  returned table has exactly the selected columns followed by the target, each column as
  it is in \<open>E\<close>.
\<close>

lemma selection_result_accepted:
  assumes names: "distinct (column_names (h ! data))"
    and E: "engineer_frame lib (h ! data) = Inr (E, created)"
    and t: "t \<noteq> []" and y: "getitem E t = Inr y"
    and ok: "predictors E t \<noteq> [] \<Longrightarrow>
             0 \<le> max_features eng \<and> \<not> contains_nan (predictors E t) \<and>
             fit_ok lib (predictors E t) y"
  shows "\<exists>r eng' h'. create_features lib data (Some t) (eng, h) = (Inr r, eng', h') \<and>
          (if predictors E t = []
           then h' ! r = E \<and> selected_features eng' = selected_features eng
           else int (length (selected_features eng')) \<le>
                  min (max_features eng) (int (length (predictors E t))) \<and>
                set (selected_features eng') \<subseteq> fst ` set (predictors E t) \<and>
                column_names (h' ! r) = selected_features eng' @ [t] \<and>
                set (columns (h' ! r)) \<subseteq> set (columns E))"
proof -
  let ?eng3 = "eng\<lparr>created_features := created_features eng @ created\<rparr>"
  have tin: "t \<in> set (column_names E)" by (rule getitem_names [OF y])
  obtain f1 f2 where call: "create_features lib data (Some t) (eng, h) =
      select_features lib (length h + 3) t (?eng3, h @ [h ! data, f1, f2, E])"
    using create_features_engineered [OF E, of "Some t" eng] t tin by auto
  let ?h3 = "h @ [h ! data, f1, f2, E]"
  have h3: "?h3 ! (length h + 3) = E" by (simp add: nth_append)
  have d: "distinct (column_names E)" by (rule engineer_frame_distinct [OF names E])
  show ?thesis
  proof (cases "predictors E t = []")
    case True
    have "select_features lib (length h + 3) t (?eng3, ?h3) = (Inr (length h + 3), ?eng3, ?h3)"
      by (rule select_features_skip [OF h3 y True])
    with call True h3 show ?thesis by simp
  next
    case False
    from ok [OF False] have mf: "0 \<le> max_features eng"
      and fit: "\<not> contains_nan (predictors E t) \<and> fit_ok lib (predictors E t) y"
      by simp_all
    have k: "\<not> min (max_features ?eng3) (int (length (predictors E t))) < 0"
      using mf by simp
    let ?m = "get_support (nat (min (max_features ?eng3) (int (length (predictors E t)))))
                (map (\<lambda>c. mutual_info lib (snd c) y) (predictors E t))"
    let ?R = "E\<lparr>columns := masked (predictors E t) ?m @ [(t, y)]\<rparr>"
    have sel: "select_features lib (length h + 3) t (?eng3, ?h3) =
      (Inr (length ?h3),
       ?eng3\<lparr>selected_features := chosen lib (max_features ?eng3) E t,
           feature_importance :=
             fold (\<lambda>fs. set_score (fst fs) (snd fs))
                  (zip (map fst (predictors E t))
                       (map (\<lambda>c. mutual_info lib (snd c) y) (predictors E t)))
                  (feature_importance ?eng3)\<rparr>,
       ?h3 @ [?R])"
      by (rule select_features_selects [OF h3 y d False k fit])
    have ch: "chosen lib (max_features eng) E t = masked (map fst (predictors E t)) ?m"
      using y by (simp add: chosen_def)
    have n: "column_names ?R = chosen lib (max_features eng) E t @ [t]"
      unfolding ch by (simp add: column_names_def masked_map)
    have sub: "set (columns ?R) \<subseteq> set (columns E)"
    proof -
      have "set (masked (predictors E t) ?m) \<subseteq> set (columns E)"
        using set_masked [of "predictors E t" ?m] predictors_member [of _ E t] by blast
      then show ?thesis using getitem_column [OF y] by simp
    qed
    have r: "(?h3 @ [?R]) ! length ?h3 = ?R" by (rule nth_append_length)
    show ?thesis
      using call sel False r n sub chosen_length [OF y mf, of lib] chosen_subset [of lib "max_features eng" E t]
      by simp
  qed
qed

lemma xl_names: "column_names xl = [''x'', ''label'']"
  by (simp add: xl_def column_names_def)

lemma xl_plain: "filter is_temporal_name (column_names xl) = []"
  by (simp add: xl_names is_temporal_name_def lower_def lower_char_def)

lemma xl_numerical: "numerical_cols xl = [''x'']"
  by (simp add: xl_def numerical_cols_def select_number_def is_number_def label_col_def)

lemma xl_engineered: "engineer_frame lib xl = Inr (xl, [])"
  by (simp add: engineer_frame_def xl_plain xl_numerical first_five_def)

lemma xl_predictors:
  "predictors xl ''label'' = [(''x'', \<lparr>dtype = Int64, vals = [Number 1, Number 2]\<rparr>)]"
  by (simp add: predictors_def xl_def select_number_def is_number_def label_col_def)

lemma xl_label: "getitem xl ''label'' = Inr label_col"
  by (simp add: getitem_def xl_def)

text \<open>The single-predictor table: one column is scored and at most one selected.\<close>

lemma selection_result_single_predictor:
  "distinct (column_names ([xl] ! 0)) \<and>
   engineer_frame lib0 ([xl] ! 0) = Inr (xl, []) \<and>
   ''label'' \<noteq> [] \<and> getitem xl ''label'' = Inr label_col \<and>
   predictors xl ''label'' \<noteq> [] \<and>
   0 \<le> max_features (engineer_init 50) \<and> \<not> contains_nan (predictors xl ''label'') \<and>
   fit_ok lib0 (predictors xl ''label'') label_col \<and>
   (\<exists>r eng' h'.
      create_features lib0 0 (Some ''label'') (engineer_init 50, [xl]) = (Inr r, eng', h') \<and>
      int (length (selected_features eng')) \<le> 1 \<and>
      column_names (h' ! r) = selected_features eng' @ [''label''])"
proof -
  have a: "distinct (column_names ([xl] ! 0))" by (simp add: xl_names)
  have b: "engineer_frame lib0 ([xl] ! 0) = Inr (xl, [])" by (simp add: xl_engineered)
  have c: "''label'' \<noteq> []" by simp
  have d: "getitem xl ''label'' = Inr label_col" by (rule xl_label)
  have e: "predictors xl ''label'' \<noteq> []" by (simp add: xl_predictors)
  have f: "0 \<le> max_features (engineer_init 50)" by (simp add: engineer_init_def)
  have g: "\<not> contains_nan (predictors xl ''label'') \<and> fit_ok lib0 (predictors xl ''label'') label_col"
    by (simp add: lib0_def xl_predictors contains_nan_def)
  have "\<exists>r eng' h'.
      create_features lib0 0 (Some ''label'') (engineer_init 50, [xl]) = (Inr r, eng', h') \<and>
      (if predictors xl ''label'' = []
       then h' ! r = xl \<and> selected_features eng' = selected_features (engineer_init 50)
       else int (length (selected_features eng')) \<le>
              min (max_features (engineer_init 50)) (int (length (predictors xl ''label''))) \<and>
            set (selected_features eng') \<subseteq> fst ` set (predictors xl ''label'') \<and>
            column_names (h' ! r) = selected_features eng' @ [''label''] \<and>
            set (columns (h' ! r)) \<subseteq> set (columns xl))"
    by (rule selection_result_accepted [OF a b c d]) (simp add: f g)
  then obtain r eng' h' where
    call: "create_features lib0 0 (Some ''label'') (engineer_init 50, [xl]) = (Inr r, eng', h')"
    and len: "int (length (selected_features eng')) \<le>
              min (max_features (engineer_init 50)) (int (length (predictors xl ''label'')))"
    and cols: "column_names (h' ! r) = selected_features eng' @ [''label'']"
    using e by auto
  have "min (max_features (engineer_init 50)) (int (length (predictors xl ''label''))) = 1"
    by (simp add: engineer_init_def xl_predictors)
  with len have "int (length (selected_features eng')) \<le> 1" by simp
  with call cols a b c d e f g show ?thesis by blast
qed

subsection \<open>The first row of the rolling standard deviation\<close>

text \<open>
  The first window holds one value, and the sample standard deviation of one observation
  is missing: every rolling-std column of a table with a row starts with a missing value.
\<close>

lemma window_first: "xs \<noteq> [] \<Longrightarrow> window xs 0 = [hd xs]"
  by (cases xs) (simp_all add: window_def)

lemma window_std_single: "window_std [c] = NaN"
  by (cases c) (simp_all add: window_std_def)

lemma rolling_std_first:
  assumes "vals s \<noteq> []"
  shows "vals (rolling_std s) ! 0 = NaN"
proof -
  have "0 < length (vals s)" using assms by simp
  then have "vals (rolling_std s) ! 0 = window_std (window (vals s) 0)"
    by (simp add: rolling_std_def)
  then show ?thesis using assms by (simp add: window_first window_std_single)
qed

lemma rolling_std_length: "length (vals (rolling_std s)) = length (vals s)"
  by (simp add: rolling_std_def)

lemma rolling_std_contains_nan:
  assumes "vals s \<noteq> []"
  shows "NaN \<in> set (vals (rolling_std s))"
proof -
  have "0 < length (vals (rolling_std s))" using assms by (simp add: rolling_std_length)
  then have "vals (rolling_std s) ! 0 \<in> set (vals (rolling_std s))" by (rule nth_mem)
  then show ?thesis using rolling_std_first [OF assms] by simp
qed

text \<open>
  On a column without a missing value the window of row \<open>i\<close> holds \<open>min (i + 1) 3\<close>
  observations: the rolling mean is defined on every row, the rolling standard deviation
  from the second row on.
\<close>

lemma rolling_mean_length: "length (vals (rolling_mean s)) = length (vals s)"
  by (simp add: rolling_mean_def)

lemma rolling_mean_nth:
  "i < length (vals s) \<Longrightarrow> vals (rolling_mean s) ! i = window_mean (window (vals s) i)"
  by (simp add: rolling_mean_def)

lemma rolling_std_nth:
  "i < length (vals s) \<Longrightarrow> vals (rolling_std s) ! i = window_std (window (vals s) i)"
  by (simp add: rolling_std_def)

lemma observations_all_numbers: "all_numbers xs \<Longrightarrow> length (observations xs) = length xs"
proof (induction xs)
  case Nil
  then show ?case by simp
next
  case (Cons c cs)
  then show ?case by (cases c) (simp_all add: all_numbers_def)
qed

lemma all_numbers_window: "all_numbers xs \<Longrightarrow> all_numbers (window xs i)"
  unfolding all_numbers_def window_def list_all_iff
  by (auto dest: in_set_dropD in_set_takeD)

lemma window_length: "i < length xs \<Longrightarrow> length (window xs i) = min (Suc i) 3"
  by (auto simp: window_def)

lemma window_observations:
  assumes "all_numbers xs" and "i < length xs"
  shows "length (observations (window xs i)) = min (Suc i) 3"
  using observations_all_numbers [OF all_numbers_window [OF assms(1)], of i]
    window_length [OF assms(2)] by simp

lemma window_mean_defined:
  "1 \<le> length (observations w) \<Longrightarrow> window_mean w = Number (mean (observations w))"
  by (simp add: window_mean_def)

lemma window_std_missing: "window_std w = NaN \<longleftrightarrow> length (observations w) < 2"
  by (auto simp: window_std_def Let_def)

lemma rolling_defined:
  assumes "all_numbers (vals s)" and "i < length (vals s)"
  shows "vals (rolling_mean s) ! i = Number (mean (observations (window (vals s) i)))"
    and "vals (rolling_std s) ! i = NaN \<longleftrightarrow> i = 0"
proof -
  have n: "length (observations (window (vals s) i)) = min (Suc i) 3"
    by (rule window_observations [OF assms])
  show "vals (rolling_mean s) ! i = Number (mean (observations (window (vals s) i)))"
    unfolding rolling_mean_nth [OF assms(2)] by (rule window_mean_defined) (simp add: n)
  show "vals (rolling_std s) ! i = NaN \<longleftrightarrow> i = 0"
    unfolding rolling_std_nth [OF assms(2)] window_std_missing n by auto
qed

lemma rolling_mean_example:
  "vals (rolling_mean \<lparr>dtype = Int64, vals = [Number 10, Number 20, Number 30, Number 40]\<rparr>) =
     [Number 10, Number 15, Number 20, Number 30]"
  by (simp add: rolling_mean_def window_def window_mean_def mean_def upt_rec)

subsection \<open>Selection on a table with rolling columns\<close>

lemma contains_nan_member:
  "c \<in> set cs \<Longrightarrow> NaN \<in> set (vals (snd c)) \<Longrightarrow> contains_nan cs"
  by (auto simp: contains_nan_def list_ex_iff)

lemma abl_plain: "filter is_temporal_name (column_names abl) = []"
  by (simp add: abl_def column_names_def is_temporal_name_def lower_def lower_char_def)

lemma abl_numerical: "numerical_cols abl = [''a'', ''b'']"
  by (simp add: abl_def numerical_cols_def select_number_def is_number_def label_col_def)

lemma abl_engineered:
  "\<exists>E names. engineer_frame lib abl = Inr (E, names) \<and>
     getitem E ''label'' = Inr label_col \<and>
     getitem E ''a_rolling_std'' = Inr (rolling_std \<lparr>dtype = Int64, vals = [Number 1, Number 2]\<rparr>) \<and>
     (''a_rolling_std'', rolling_std \<lparr>dtype = Int64, vals = [Number 1, Number 2]\<rparr>)
       \<in> set (predictors E ''label'')"
  unfolding engineer_frame_def abl_plain
  by (simp add: abl_numerical first_five_def)
     (simp add: abl_def getitem_def no_zero_def setitem_def mul_name_def div_name_def
        numerical_cols_def select_number_def is_number_def series_mul_def series_div_def
        label_col_def predictors_def rolling_std_def rolling_mean_def)

text \<open>
  Claim C5 fails on the code. On the table \<open>a = [1,2]\<close>, \<open>b = [3,4]\<close>,
  \<open>label = ['p','q']\<close> with the target \<open>label\<close>, the statistical step adds the column
  \<open>a_rolling_std\<close> whose first value is missing; it is a numeric predictor, the
  selector refuses it, and \<open>create_features\<close> raises ValueError instead of returning the
  selected columns with the target. This holds whatever the libraries parse and score.
\<close>

theorem selection_raises_on_rolling_std:
  "(\<exists>E names s. engineer_frame lib abl = Inr (E, names) \<and>
      getitem E ''a_rolling_std'' = Inr s \<and> vals s ! 0 = NaN) \<and>
   fst (create_features lib 0 (Some ''label'') (engineer_init 50, [abl])) = Inl ValueError"
proof -
  let ?a = "\<lparr>dtype = Int64, vals = [Number 1, Number 2]\<rparr>"
  obtain E names where E: "engineer_frame lib abl = Inr (E, names)"
    and y: "getitem E ''label'' = Inr label_col"
    and s: "getitem E ''a_rolling_std'' = Inr (rolling_std ?a)"
    and p: "(''a_rolling_std'', rolling_std ?a) \<in> set (predictors E ''label'')"
    using abl_engineered [of lib] by blast
  have first: "vals (rolling_std ?a) ! 0 = NaN" by (rule rolling_std_first) simp
  have nan: "contains_nan (predictors E ''label'')"
    by (rule contains_nan_member [OF p]) (simp add: rolling_std_contains_nan)
  have ne: "predictors E ''label'' \<noteq> []" using p by auto
  let ?eng3 = "(engineer_init 50)\<lparr>created_features := created_features (engineer_init 50) @ names\<rparr>"
  have E0: "engineer_frame lib ([abl] ! 0) = Inr (E, names)" using E by simp
  have tin: "''label'' \<in> set (column_names E)" by (rule getitem_names [OF y])
  obtain f1 f2 where call: "create_features lib 0 (Some ''label'') (engineer_init 50, [abl]) =
      select_features lib (length [abl] + 3) ''label'' (?eng3, [abl] @ [[abl] ! 0, f1, f2, E])"
    using create_features_engineered [OF E0, of "Some ''label''" "engineer_init 50"] tin by auto
  let ?h3 = "[abl] @ [[abl] ! 0, f1, f2, E]"
  have h3: "?h3 ! (length [abl] + 3) = E" by simp
  have k: "\<not> min (max_features ?eng3) (int (length (predictors E ''label''))) < 0"
    by (simp add: engineer_init_def)
  have "select_features lib (length [abl] + 3) ''label'' (?eng3, ?h3) = (Inl ValueError, ?eng3, ?h3)"
    by (rule select_features_refused [OF h3 y ne k]) (simp add: nan)
  with call have "fst (create_features lib 0 (Some ''label'') (engineer_init 50, [abl])) = Inl ValueError"
    by simp
  with E s first show ?thesis by blast
qed

subsection \<open>The feature steps never raise\<close>

text \<open>
  The interaction and the statistical loop read columns whose names they took from the
  table itself, and an assignment removes no column: every read succeeds.
\<close>

lemma numerical_cols_present: "c \<in> set (numerical_cols f) \<Longrightarrow> c \<in> set (column_names f)"
  by (auto simp: numerical_cols_def select_number_def column_names_def)

lemma first_five_member: "c \<in> set (first_five cs) \<Longrightarrow> c \<in> set cs"
  by (auto simp: first_five_def dest: in_set_takeD split: if_splits)

lemma pairs_of_members: "p \<in> set (pairs_of cs) \<Longrightarrow> fst p \<in> set cs \<and> snd p \<in> set cs"
  by (induction cs) auto





subsection \<open>The name lists over successive calls\<close>










subsection \<open>The loops against the specification's columns\<close>

text \<open>
  When the names a loop assigns are new and pairwise different, every assignment appends a
  column and every read sees a column of the table the loop started from.
\<close>

lemma getitem_with_columns:
  "c \<in> set (column_names f) \<Longrightarrow> getitem (with_columns f cs) c = getitem f c"
  by (auto simp: getitem_def with_columns_def column_names_def map_of_append map_add_def
      map_of_eq_None_iff split: option.splits)

lemma column_names_with_columns:
  "column_names (with_columns f cs) = column_names f @ map fst cs"
  by (simp add: column_names_def with_columns_def)

lemma with_columns_append: "with_columns (with_columns f xs) ys = with_columns f (xs @ ys)"
  by (simp add: with_columns_def)

lemma with_columns_Nil: "with_columns f [] = f"
  by (simp add: with_columns_def)

lemma setitem_new:
  "name \<notin> set (column_names f) \<Longrightarrow> setitem name s f = with_columns f [(name, s)]"
  by (simp add: setitem_def with_columns_def column_names_def set_column_fresh)

lemma pair_columns_spec_with_columns:
  assumes "fst p \<in> set (column_names f)" and "snd p \<in> set (column_names f)"
  shows "pair_columns_spec (with_columns f cs) p = pair_columns_spec f p"
  using assms by (simp add: pair_columns_spec_def getitem_with_columns split: sum.splits)

lemma interaction_loop_appends:
  assumes "\<forall>p\<in>set ps. fst p \<in> set (column_names g) \<and> snd p \<in> set (column_names g)"
    and "distinct (column_names g @ map fst (concat (map (pair_columns_spec g) ps)))"
  shows "interaction_loop ps (g, cr) =
           Inr (with_columns g (concat (map (pair_columns_spec g) ps)),
                cr @ map fst (concat (map (pair_columns_spec g) ps)))"
  using assms
proof (induction ps arbitrary: g cr)
  case Nil
  then show ?case by (simp add: with_columns_Nil)
next
  case (Cons p ps)
  from Cons.prems(1) obtain s1 s2 where s1: "getitem g (fst p) = Inr s1"
    and s2: "getitem g (snd p) = Inr s2"
    using getitem_present [of "fst p" g] getitem_present [of "snd p" g] by auto
  let ?N = "pair_columns_spec g p"
  let ?g' = "with_columns g ?N"
  have N: "?N = (mul_name (fst p) (snd p), series_mul s1 s2) #
               (if no_zero s2 then [(div_name (fst p) (snd p), series_div s1 s2)] else [])"
    using s1 s2 by (simp add: pair_columns_spec_def)
  have same: "map (pair_columns_spec ?g') ps = map (pair_columns_spec g) ps"
    using Cons.prems(1) by (intro map_cong refl pair_columns_spec_with_columns) simp_all
  have present: "\<forall>q\<in>set ps. fst q \<in> set (column_names ?g') \<and> snd q \<in> set (column_names ?g')"
    using Cons.prems(1) by (simp add: column_names_with_columns)
  have fresh: "distinct (column_names ?g' @ map fst (concat (map (pair_columns_spec ?g') ps)))"
    using Cons.prems(2) unfolding same by (simp add: column_names_with_columns)
  have mul: "mul_name (fst p) (snd p) \<notin> set (column_names g)"
    using Cons.prems(2) N by auto
  have IH: "interaction_loop ps (?g', cr') =
           Inr (with_columns g (concat (map (pair_columns_spec g) (p # ps))),
                cr' @ map fst (concat (map (pair_columns_spec g) ps)))" for cr'
    using Cons.IH [OF present fresh, of cr'] unfolding same by (simp add: with_columns_append)
  show ?case
  proof (cases "no_zero s2")
    case True
    have div: "div_name (fst p) (snd p) \<notin>
               set (column_names (with_columns g [(mul_name (fst p) (snd p), series_mul s1 s2)]))"
      using Cons.prems(2) N True by (auto simp: column_names_with_columns)
    have "setitem (div_name (fst p) (snd p)) (series_div s1 s2)
            (setitem (mul_name (fst p) (snd p)) (series_mul s1 s2) g) = ?g'"
      unfolding setitem_new [OF mul] setitem_new [OF div] using N True
      by (simp add: with_columns_append)
    then show ?thesis using s1 s2 True IH N by simp
  next
    case False
    have "setitem (mul_name (fst p) (snd p)) (series_mul s1 s2) g = ?g'"
      unfolding setitem_new [OF mul] using N False by simp
    then show ?thesis using s1 s2 False IH N by simp
  qed
qed

lemma column_stats_spec_with_columns:
  assumes "c \<in> set (column_names f)"
  shows "column_stats_spec (with_columns f cs) c = column_stats_spec f c"
  using assms by (simp add: column_stats_spec_def getitem_with_columns)

lemma statistical_loop_appends:
  assumes "\<forall>c\<in>set cols. c \<in> set (column_names g)"
    and "distinct (column_names g @ map fst (concat (map (column_stats_spec g) cols)))"
  shows "statistical_loop cols (g, cr) =
           Inr (with_columns g (concat (map (column_stats_spec g) cols)),
                cr @ map fst (concat (map (column_stats_spec g) cols)))"
  using assms
proof (induction cols arbitrary: g cr)
  case Nil
  then show ?case by (simp add: with_columns_Nil)
next
  case (Cons col cols)
  from Cons.prems(1) obtain s where s: "getitem g col = Inr s"
    using getitem_present [of col g] by auto
  let ?N = "column_stats_spec g col"
  let ?g' = "with_columns g ?N"
  have N: "?N = [(col @ ''_rolling_mean'', rolling_mean s), (col @ ''_rolling_std'', rolling_std s)]"
    using s by (simp add: column_stats_spec_def)
  have same: "map (column_stats_spec ?g') cols = map (column_stats_spec g) cols"
    using Cons.prems(1) by (intro map_cong refl column_stats_spec_with_columns) simp_all
  have present: "\<forall>c\<in>set cols. c \<in> set (column_names ?g')"
    using Cons.prems(1) by (simp add: column_names_with_columns)
  have fresh: "distinct (column_names ?g' @ map fst (concat (map (column_stats_spec ?g') cols)))"
    using Cons.prems(2) unfolding same by (simp add: column_names_with_columns)
  have m: "col @ ''_rolling_mean'' \<notin> set (column_names g)"
    using Cons.prems(2) N by auto
  have d: "col @ ''_rolling_std'' \<notin>
             set (column_names (with_columns g [(col @ ''_rolling_mean'', rolling_mean s)]))"
    using Cons.prems(2) N by (auto simp: column_names_with_columns)
  have "setitem (col @ ''_rolling_std'') (rolling_std s)
          (setitem (col @ ''_rolling_mean'') (rolling_mean s) g) = ?g'"
    unfolding setitem_new [OF m] setitem_new [OF d] using N by (simp add: with_columns_append)
  then show ?case
    using s N Cons.IH [OF present fresh, of "cr @ [col @ ''_rolling_mean'', col @ ''_rolling_std'']"]
    unfolding same by (simp add: with_columns_append)
qed

lemma engineer_frame_appends:
  assumes T: "temporal_loop lib (filter is_temporal_name (column_names f)) (f, []) = (f1, c1)"
    and fresh: "distinct (column_names f1 @ map fst (added_columns_spec f1))"
  shows "engineer_frame lib f =
           Inr (with_columns f1 (added_columns_spec f1), c1 @ map fst (added_columns_spec f1))"
proof -
  let ?I = "interaction_columns_spec f1"
  let ?f2 = "with_columns f1 ?I"
  let ?R = "rolling_columns_spec ?f2"
  have present: "\<forall>p\<in>set (pairs_of (first_five (numerical_cols f1))).
          fst p \<in> set (column_names f1) \<and> snd p \<in> set (column_names f1)"
    using pairs_of_members first_five_member numerical_cols_present by blast
  have freshI: "distinct (column_names f1 @ map fst ?I)"
    using fresh by (auto simp: added_columns_spec_def)
  have I: "interaction_loop (pairs_of (first_five (numerical_cols f1))) (f1, c1) =
             Inr (?f2, c1 @ map fst ?I)"
    using interaction_loop_appends [OF present, of c1] freshI
    by (simp add: interaction_columns_spec_def)
  have S: "(if length (numerical_cols ?f2) \<ge> 3
            then statistical_loop (take 3 (numerical_cols ?f2)) (?f2, c1 @ map fst ?I)
            else Inr (?f2, c1 @ map fst ?I)) =
           Inr (with_columns ?f2 ?R, (c1 @ map fst ?I) @ map fst ?R)"
  proof (cases "length (numerical_cols ?f2) \<ge> 3")
    case True
    have p: "\<forall>c\<in>set (take 3 (numerical_cols ?f2)). c \<in> set (column_names ?f2)"
      using numerical_cols_present by (auto dest: in_set_takeD)
    have R: "?R = concat (map (column_stats_spec ?f2) (take 3 (numerical_cols ?f2)))"
      using True by (simp add: rolling_columns_spec_def)
    have fr: "distinct (column_names ?f2 @
                map fst (concat (map (column_stats_spec ?f2) (take 3 (numerical_cols ?f2)))))"
      using fresh unfolding R [symmetric]
      by (auto simp: added_columns_spec_def column_names_with_columns)
    show ?thesis
      using True statistical_loop_appends [OF p fr, of "c1 @ map fst ?I"] unfolding R [symmetric]
      by simp
  next
    case False
    then show ?thesis by (simp add: rolling_columns_spec_def with_columns_Nil)
  qed
  show ?thesis
    unfolding engineer_frame_def T using I S
    by (simp add: added_columns_spec_def with_columns_append)
qed

subsection \<open>The table a call without a target returns\<close>

lemma create_features_appends:
  assumes T: "temporal_frame lib (h ! data) = T"
    and fresh: "distinct (column_names T @ map fst (added_columns_spec T))"
  shows "returned_table (create_features lib data None (eng, h)) =
           Inr (with_columns T (added_columns_spec T))"
proof -
  obtain c1 where tl: "temporal_loop lib (filter is_temporal_name (column_names (h ! data))) (h ! data, []) = (T, c1)"
    using T unfolding temporal_frame_def
    by (cases "temporal_loop lib (filter is_temporal_name (column_names (h ! data))) (h ! data, [])") simp
  have E: "engineer_frame lib (h ! data) =
             Inr (with_columns T (added_columns_spec T), c1 @ map fst (added_columns_spec T))"
    by (rule engineer_frame_appends [OF tl fresh])
  obtain f1 f2 where "create_features lib data None (eng, h) =
      (Inr (length h + 3),
       eng\<lparr>created_features := created_features eng @ (c1 @ map fst (added_columns_spec T))\<rparr>,
       h @ [h ! data, f1, f2, with_columns T (added_columns_spec T)])"
    using create_features_engineered [OF E, of None eng] by auto
  then show ?thesis by (simp add: returned_table_def nth_append)
qed

lemma getitem_added:
  assumes "distinct (column_names f @ map fst cs)" and "(n, s) \<in> set cs"
  shows "getitem (with_columns f cs) n = Inr s"
proof -
  have "distinct (map fst (columns f @ cs))" using assms(1) by (simp add: column_names_def)
  moreover have "(n, s) \<in> set (columns f @ cs)" using assms(2) by simp
  ultimately have "map_of (columns f @ cs) n = Some s" by (rule map_of_is_SomeI)
  then show ?thesis by (simp add: getitem_def with_columns_def)
qed


lemma numerical_cols_with_columns:
  "numerical_cols (with_columns f cs) = numerical_cols f @ map fst (select_number cs)"
  by (simp add: numerical_cols_def with_columns_def select_number_def)

lemma first_three_with_columns:
  assumes "3 \<le> length (numerical_cols f)"
  shows "take 3 (numerical_cols (with_columns f cs)) = take 3 (numerical_cols f)"
    and "3 \<le> length (numerical_cols (with_columns f cs))"
  using assms by (simp_all add: numerical_cols_with_columns)

lemma rolling_columns_member:
  assumes three: "3 \<le> length (numerical_cols T)"
    and col: "col \<in> set (take 3 (numerical_cols T))"
    and s: "getitem T col = Inr s"
  shows "(col @ ''_rolling_mean'', rolling_mean s) \<in> set (added_columns_spec T)"
    and "(col @ ''_rolling_std'', rolling_std s) \<in> set (added_columns_spec T)"
proof -
  let ?f2 = "with_columns T (interaction_columns_spec T)"
  have present: "col \<in> set (column_names T)"
    using col numerical_cols_present by (auto dest: in_set_takeD)
  have st: "column_stats_spec ?f2 col =
          [(col @ ''_rolling_mean'', rolling_mean s), (col @ ''_rolling_std'', rolling_std s)]"
    using s present by (simp add: column_stats_spec_def getitem_with_columns)
  have R: "rolling_columns_spec ?f2 = concat (map (column_stats_spec ?f2) (take 3 (numerical_cols T)))"
    using first_three_with_columns [OF three] by (simp add: rolling_columns_spec_def)
  have "set (column_stats_spec ?f2 col) \<subseteq> set (rolling_columns_spec ?f2)"
    unfolding R using col by auto
  then show "(col @ ''_rolling_mean'', rolling_mean s) \<in> set (added_columns_spec T)"
    and "(col @ ''_rolling_std'', rolling_std s) \<in> set (added_columns_spec T)"
    unfolding st by (simp_all add: added_columns_spec_def)
qed

subsection \<open>The rolling columns of the returned table\<close>

lemma rolling_columns_returned:
  assumes T: "temporal_frame lib (h ! data) = T"
    and fresh: "distinct (column_names T @ map fst (added_columns_spec T))"
    and three: "3 \<le> length (numerical_cols T)"
    and col: "col \<in> set (take 3 (numerical_cols T))"
    and s: "getitem T col = Inr s"
  shows "returned_column (create_features lib data None (eng, h)) (col @ ''_rolling_mean'') =
           Inr (vals (rolling_mean s))"
    and "returned_column (create_features lib data None (eng, h)) (col @ ''_rolling_std'') =
           Inr (vals (rolling_std s))"
proof -
  note r = create_features_appends [OF T fresh, of eng]
  note m = rolling_columns_member [OF three col s]
  show "returned_column (create_features lib data None (eng, h)) (col @ ''_rolling_mean'') =
           Inr (vals (rolling_mean s))"
    by (simp add: returned_column_def r getitem_added [OF fresh m(1)])
  show "returned_column (create_features lib data None (eng, h)) (col @ ''_rolling_std'') =
           Inr (vals (rolling_std s))"
    by (simp add: returned_column_def r getitem_added [OF fresh m(2)])
qed

lemma is_number_series_mul: "is_number (series_mul a b)"
  by (simp add: is_number_def series_mul_def)

lemma is_number_series_div: "is_number (series_div a b)"
  by (simp add: is_number_def series_div_def)

lemma pqr_plain: "temporal_frame lib pqr = pqr"
  by (simp add: temporal_frame_def pqr_def column_names_def is_temporal_name_def lower_def
      lower_char_def)

lemma pqr_numerical: "numerical_cols pqr = [''p'', ''q'', ''r'']"
  by (simp add: pqr_def numerical_cols_def select_number_def is_number_def)

lemma pqr_p: "getitem pqr ''p'' =
    Inr \<lparr>dtype = Int64, vals = [Number 10, Number 20, Number 30, Number 40]\<rparr>"
  by (simp add: pqr_def getitem_def)

lemma pqr_interaction_names:
  "map fst (interaction_columns_spec pqr) = [''p_x_q'', ''p_x_r'', ''q_x_r'']"
  by (simp add: interaction_columns_spec_def pqr_numerical first_five_def)
     (simp add: pair_columns_spec_def pqr_def getitem_def no_zero_def mul_name_def)

lemma pqr_added_names:
  "map fst (added_columns_spec pqr) =
     [''p_x_q'', ''p_x_r'', ''q_x_r'', ''p_rolling_mean'', ''p_rolling_std'',
      ''q_rolling_mean'', ''q_rolling_std'', ''r_rolling_mean'', ''r_rolling_std'']"
proof -
  have three: "3 \<le> length (numerical_cols pqr)" by (simp add: pqr_numerical)
  have "map fst (rolling_columns_spec (with_columns pqr (interaction_columns_spec pqr))) =
          [''p_rolling_mean'', ''p_rolling_std'',
           ''q_rolling_mean'', ''q_rolling_std'', ''r_rolling_mean'', ''r_rolling_std'']"
    using first_three_with_columns [OF three, of "interaction_columns_spec pqr"]
    by (simp add: rolling_columns_spec_def pqr_numerical)
       (simp add: column_stats_spec_def getitem_def pqr_def with_columns_def)
  then show ?thesis by (simp add: added_columns_spec_def pqr_interaction_names)
qed

lemma pqr_fresh: "distinct (column_names pqr @ map fst (added_columns_spec pqr))"
  unfolding pqr_added_names by (simp add: pqr_def column_names_def)

text \<open>
  Claim C6, as amended. Let \<open>T\<close> be the table the temporal step leaves (the input table
  when no column name contains \<open>date\<close> or \<open>time\<close>), with at least three numeric columns,
  the names of the added columns new and pairwise different. For each of the first three
  numeric columns of \<open>T\<close> the table returned by a call without a target holds the
  rolling mean and the rolling standard deviation of that column, over the window of the
  row and the two rows before it, as long as the column. On a column without a missing
  value the window of row \<open>i\<close> holds \<open>min (i + 1) 3\<close> observations, the rolling mean is
  their mean on every row, and the rolling standard deviation is missing on the first row
  and on no other.
\<close>

theorem rolling_columns_added:
  assumes T: "temporal_frame lib (h ! data) = T"
    and fresh: "distinct (column_names T @ map fst (added_columns_spec T))"
    and three: "3 \<le> length (numerical_cols T)"
    and col: "col \<in> set (take 3 (numerical_cols T))"
    and s: "getitem T col = Inr s"
  shows "returned_column (create_features lib data None (eng, h)) (col @ ''_rolling_mean'') =
           Inr (vals (rolling_mean s)) \<and>
         returned_column (create_features lib data None (eng, h)) (col @ ''_rolling_std'') =
           Inr (vals (rolling_std s)) \<and>
         length (vals (rolling_mean s)) = length (vals s) \<and>
         length (vals (rolling_std s)) = length (vals s) \<and>
         (all_numbers (vals s) \<longrightarrow>
            (\<forall>i<length (vals s).
               length (observations (window (vals s) i)) = min (i + 1) 3 \<and>
               vals (rolling_mean s) ! i = Number (mean (observations (window (vals s) i))) \<and>
               (vals (rolling_std s) ! i = NaN \<longleftrightarrow> i = 0)))"
proof -
  have "length (observations (window (vals s) i)) = min (i + 1) 3 \<and>
        vals (rolling_mean s) ! i = Number (mean (observations (window (vals s) i))) \<and>
        (vals (rolling_std s) ! i = NaN \<longleftrightarrow> i = 0)"
    if "all_numbers (vals s)" and "i < length (vals s)" for i
    using window_observations [OF that] rolling_defined [OF that] by simp
  then show ?thesis
    using rolling_columns_returned [OF T fresh three col s, of eng]
    by (simp add: rolling_mean_length rolling_std_length)
qed

text \<open>
  The amended claim on the table \<open>pqr\<close>: the rolling mean of \<open>[10,20,30,40]\<close> is
  \<open>[10,15,20,30]\<close>; its rolling standard deviation is missing on the first row and
  defined on the second.
\<close>

theorem rolling_columns_added_witness:
  "temporal_frame lib0 ([pqr] ! 0) = pqr \<and>
   distinct (column_names pqr @ map fst (added_columns_spec pqr)) \<and>
   3 \<le> length (numerical_cols pqr) \<and>
   ''p'' \<in> set (take 3 (numerical_cols pqr)) \<and>
   getitem pqr ''p'' = Inr \<lparr>dtype = Int64, vals = [Number 10, Number 20, Number 30, Number 40]\<rparr> \<and>
   all_numbers [Number 10, Number 20, Number 30, Number 40] \<and>
   returned_column (create_features lib0 0 None (engineer_init 50, [pqr])) ''p_rolling_mean'' =
     Inr [Number 10, Number 15, Number 20, Number 30] \<and>
   returned_column (create_features lib0 0 None (engineer_init 50, [pqr])) ''p_rolling_std'' =
     Inr (vals (rolling_std \<lparr>dtype = Int64, vals = [Number 10, Number 20, Number 30, Number 40]\<rparr>)) \<and>
   vals (rolling_std \<lparr>dtype = Int64, vals = [Number 10, Number 20, Number 30, Number 40]\<rparr>) ! 0 = NaN \<and>
   vals (rolling_std \<lparr>dtype = Int64, vals = [Number 10, Number 20, Number 30, Number 40]\<rparr>) ! 1 \<noteq> NaN"
proof -
  let ?p = "\<lparr>dtype = Int64, vals = [Number 10, Number 20, Number 30, Number 40]\<rparr>"
  have a: "temporal_frame lib0 ([pqr] ! 0) = pqr" by (simp add: pqr_plain)
  have b: "distinct (column_names pqr @ map fst (added_columns_spec pqr))" by (rule pqr_fresh)
  have c: "3 \<le> length (numerical_cols pqr)" by (simp add: pqr_numerical)
  have d: "''p'' \<in> set (take 3 (numerical_cols pqr))" by (simp add: pqr_numerical)
  have e: "getitem pqr ''p'' = Inr ?p" by (rule pqr_p)
  have f: "all_numbers [Number 10, Number 20, Number 30, Number 40]" by (simp add: all_numbers_def)
  note t = rolling_columns_added [OF a b c d e, of "engineer_init 50"]
  from t have m: "returned_column (create_features lib0 0 None (engineer_init 50, [pqr])) ''p_rolling_mean'' =
     Inr [Number 10, Number 15, Number 20, Number 30]"
    by (simp add: rolling_mean_example)
  from t have sd: "returned_column (create_features lib0 0 None (engineer_init 50, [pqr])) ''p_rolling_std'' =
     Inr (vals (rolling_std ?p))"
    by simp
  from t f have "\<forall>i<4. vals (rolling_std ?p) ! i = NaN \<longleftrightarrow> i = 0" by simp
  then have "vals (rolling_std ?p) ! 0 = NaN" and "vals (rolling_std ?p) ! 1 \<noteq> NaN" by simp_all
  with a b c d e f m sd show ?thesis by simp
qed

text \<open>
  Claim C6 as stated fails: on the table \<open>pqr\<close> the returned column \<open>p_rolling_std\<close>
  is missing at the first row.
\<close>

theorem rolling_std_first_row_missing:
  "returned_column (create_features lib0 0 None (engineer_init 50, [pqr])) ''p_rolling_std'' =
     Inr (vals (rolling_std \<lparr>dtype = Int64, vals = [Number 10, Number 20, Number 30, Number 40]\<rparr>)) \<and>
   vals (rolling_std \<lparr>dtype = Int64, vals = [Number 10, Number 20, Number 30, Number 40]\<rparr>) ! 0 = NaN"
proof -
  let ?p = "\<lparr>dtype = Int64, vals = [Number 10, Number 20, Number 30, Number 40]\<rparr>"
  have a: "temporal_frame lib0 ([pqr] ! 0) = pqr" by (simp add: pqr_plain)
  have c: "3 \<le> length (numerical_cols pqr)" by (simp add: pqr_numerical)
  have d: "''p'' \<in> set (take 3 (numerical_cols pqr))" by (simp add: pqr_numerical)
  have "returned_column (create_features lib0 0 None (engineer_init 50, [pqr])) (''p'' @ ''_rolling_std'') =
          Inr (vals (rolling_std ?p))"
    by (rule rolling_columns_returned(2) [OF a pqr_fresh c d pqr_p])
  moreover have "vals (rolling_std ?p) ! 0 = NaN" by (rule rolling_std_first) simp
  ultimately show ?thesis by simp
qed

subsection \<open>The names the interaction step may use\<close>









subsection \<open>The interaction columns of the returned table\<close>















end
